theory Spec2Isabelle
  imports Main "HOL-Library.Word"
begin

section \<open>The OpenCL intermediation server (opencl_serv.c)\<close>

text \<open>
  The server is one C file. Its functions call the OpenCL driver, the PostgreSQL backend
  and other PG-Strom files; each such call is recorded as an event of a trace, and what
  the call answers is read from an environment. Global variables of the file are the
  fields of the record \<open>clserv\<close>, passed from statement to statement.
\<close>

subsection \<open>Device scheduler\<close>

text \<open>
  C's remainder truncates towards zero: its sign is the sign of the dividend.
\<close>

definition c_rem :: "int \<Rightarrow> int \<Rightarrow> int" where
  "c_rem a b = sgn a * (\<bar>a\<bar> mod \<bar>b\<bar>)"

text \<open>
  \<^verbatim>\<open>static int index = 0;  return index++ % opencl_num_devices;\<close>

  The counter is a 32-bit \<open>int\<close>; PostgreSQL and its extensions are compiled with
  \<open>-fwrapv\<close>, so \<open>index++\<close> wraps around. The function returns the remainder
  computed from the old value together with the new counter. The variable
  \<open>opencl_num_devices\<close> is declared in pg_strom.h, outside this file: the flag
  \<open>count_unsigned\<close> says whether it is declared \<open>cl_uint\<close> (then \<open>%\<close> is taken on
  unsigned operands and the result converted to \<open>int\<close>) or \<open>int\<close>. The result
  \<open>None\<close> is the trap of a division by zero (or of \<open>INT_MIN % -1\<close>). The message
  argument is not used by the C function and is left out.
\<close>

definition pgstrom_opencl_device_schedule ::
  "bool \<Rightarrow> 32 word \<Rightarrow> 32 word \<Rightarrow> int option \<times> 32 word" where
  "pgstrom_opencl_device_schedule count_unsigned opencl_num_devices index =
     ((if opencl_num_devices = 0 then None
       else if count_unsigned
         then Some (sint (word_of_nat (unat index mod unat opencl_num_devices) :: 32 word))
       else if sint index = - (2 ^ 31) \<and> sint opencl_num_devices = - 1 then None
       else Some (c_rem (sint index) (sint opencl_num_devices))),
      index + 1)"

text \<open>
  The value returned by call number \<open>n\<close> (counted from 0) of a single thread, the
  counter starting at its initial value 0.
\<close>

definition nth_schedule :: "bool \<Rightarrow> 32 word \<Rightarrow> nat \<Rightarrow> int option" where
  "nth_schedule u C n =
     fst (pgstrom_opencl_device_schedule u C
            (((\<lambda>i. snd (pgstrom_opencl_device_schedule u C i)) ^^ n) 0))"

subsection \<open>Events, environment and process state\<close>

datatype signal = SIGHUP | SIGTERM

datatype elevel = LOG | ERROR

text \<open>
  \<open>Elog\<close> carries the format string and the numeric arguments. \<open>ClCreateCommandQueue\<close>
  and \<open>PthreadCreate\<close> carry the index of the device or thread and the code the call
  returned.
\<close>

datatype event =
    Pqsignal signal
  | BackgroundWorkerUnblockSignals
  | ClCreateContext nat int
  | ClCreateCommandQueue nat int
  | ClCreateBuffer nat nat int
  | Elog elevel string "int list"
  | PgstromSetupShmem "64 word"
  | Sysconf
  | Malloc "64 word"
  | PthreadCreate int int
  | PthreadJoin int
  | CancelServerLoop
  | CloseServerQueue
  | ClservLog string

record pgstrom_device_info =
  dev_max_mem_alloc_size :: "64 word"

text \<open>
  What the world outside the file answers: the return codes of the OpenCL calls, the
  zones (address, length, code of \<open>clCreateBuffer\<close>) that the shared memory setup
  presents to the callback, the value of \<open>sysconf(_SC_NPROCESSORS_ONLN)\<close> (a \<open>long\<close>),
  whether PostgreSQL was built with assertion checking (\<open>Assert\<close> is compiled out
  otherwise), whether \<open>malloc\<close> of a given size succeeds, and the return code of the
  \<open>pthread_create\<close> for each thread index.
\<close>

record environment =
  clCreateContext_rc :: int
  clCreateCommandQueue_rc :: "nat \<Rightarrow> int"
  shmem_zones :: "(nat \<times> nat \<times> int) list"
  sysconf_nprocessors_onln :: "64 word"
  assert_checking :: bool
  malloc_ok :: "64 word \<Rightarrow> bool"
  pthread_create_rc :: "int \<Rightarrow> int"

record clserv =
  opencl_num_threads :: "32 word"
  pgstrom_clserv_exit_pending :: bool
  pgstrom_i_am_clserv :: bool
  ImmediateInterruptOK :: bool
  trace :: "event list"

text \<open>
  The static initialisers: both flags false, the thread count set by the configuration
  variable \<open>pgstrom.opencl_num_threads\<close> (range 0 to \<open>INT_MAX\<close>, default 0).
\<close>

definition clserv_boot :: "32 word \<Rightarrow> clserv" where
  "clserv_boot cfg =
     \<lparr>opencl_num_threads = cfg, pgstrom_clserv_exit_pending = False,
      pgstrom_i_am_clserv = False, ImmediateInterruptOK = True, trace = []\<rparr>"

datatype abort = ErrorExit | AssertFailure

type_synonym 'a outcome = "(abort \<times> clserv) + 'a"

definition CL_SUCCESS :: int where
  "CL_SUCCESS = 0"

definition LONG_MAX :: "64 word" where
  "LONG_MAX = 0x7FFFFFFFFFFFFFFF"

definition emit :: "event \<Rightarrow> clserv \<Rightarrow> clserv" where
  "emit e s = s\<lparr>trace := trace s @ [e]\<rparr>"

definition elog :: "elevel \<Rightarrow> string \<Rightarrow> int list \<Rightarrow> clserv \<Rightarrow> clserv" where
  "elog lvl fmt args s = emit (Elog lvl fmt args) s"

definition pgstrom_cancel_server_loop :: "clserv \<Rightarrow> clserv" where
  "pgstrom_cancel_server_loop s = emit CancelServerLoop s"

definition pgstrom_close_server_queue :: "clserv \<Rightarrow> clserv" where
  "pgstrom_close_server_queue s = emit CloseServerQueue s"

definition clserv_log :: "string \<Rightarrow> clserv \<Rightarrow> clserv" where
  "clserv_log msg s = emit (ClservLog msg) s"

subsection \<open>Signal handlers\<close>

definition pgstrom_opencl_sigterm :: "clserv \<Rightarrow> clserv" where
  "pgstrom_opencl_sigterm s =
     clserv_log ''Got SIGTERM''
       (pgstrom_cancel_server_loop (s\<lparr>pgstrom_clserv_exit_pending := True\<rparr>))"

definition pgstrom_opencl_sighup :: "clserv \<Rightarrow> clserv" where
  "pgstrom_opencl_sighup s =
     clserv_log ''Got SIGHUP''
       (pgstrom_cancel_server_loop (s\<lparr>pgstrom_clserv_exit_pending := True\<rparr>))"

text \<open>The handler installed by \<open>pqsignal\<close> for each of the two signals.\<close>

fun deliver :: "signal \<Rightarrow> clserv \<Rightarrow> clserv" where
  "deliver SIGHUP s = pgstrom_opencl_sighup s"
| "deliver SIGTERM s = pgstrom_opencl_sigterm s"

subsection \<open>Worker event loop\<close>

text \<open>
  A message carries the callback that processes it; the callback is named by a number.
\<close>

record pgstrom_message =
  msg_id :: nat
  cb_process :: nat

text \<open>
  The loop runs in each worker thread, while signal handlers and producers run beside
  it. What one pass of the loop observes is a \<open>poll\<close>: either the test of the
  \<open>while\<close> reads the volatile flag as true, or it reads it as false and
  \<open>pgstrom_dequeue_server_message\<close> then returns a message or \<open>NULL\<close>. The calls the
  thread makes are recorded as worker events; \<open>CHECK_FOR_INTERRUPTS\<close> and the
  callbacks are taken to return.
\<close>

datatype poll = ExitPending | Running "pgstrom_message option"

datatype worker_event =
    CheckForInterrupts
  | Dequeue "pgstrom_message option"
  | Callback nat pgstrom_message

text \<open>
  The list of polls is the fuel of the loop: when it is used up before the flag was
  read as true, the thread is still in the loop and the result is \<open>None\<close>.
\<close>

fun pgstrom_opencl_event_loop :: "poll list \<Rightarrow> worker_event list \<Rightarrow> worker_event list option" where
  "pgstrom_opencl_event_loop [] tr = None"
| "pgstrom_opencl_event_loop (ExitPending # rest) tr = Some tr"
| "pgstrom_opencl_event_loop (Running msg # rest) tr =
     (case msg of
        None \<Rightarrow> pgstrom_opencl_event_loop rest (tr @ [CheckForInterrupts, Dequeue None])
      | Some m \<Rightarrow>
          pgstrom_opencl_event_loop rest
            (tr @ [CheckForInterrupts, Dequeue (Some m), Callback (cb_process m) m]))"

subsection \<open>Context, command queues and shared memory\<close>

text \<open>
  \<open>elog(ERROR, ...)\<close> does not return: the background worker exits. It is the
  outcome \<open>Inl (ErrorExit, s)\<close>, with the state reached. The end of a zone,
  \<^verbatim>\<open>(char *)address + length - 1\<close>, is computed on 64-bit pointers.
\<close>

definition on_shmem_zone_callback :: "nat \<Rightarrow> nat \<Rightarrow> int \<Rightarrow> clserv \<Rightarrow> clserv outcome" where
  "on_shmem_zone_callback address len rc s =
     (let s1 = emit (ClCreateBuffer address len rc) s in
      if rc \<noteq> CL_SUCCESS
      then Inl (ErrorExit,
                elog ERROR ''clCreateBuffer failed on host memory (%p-%p): %s''
                  [int address, (int address + int len - 1) mod 2 ^ 64, rc] s1)
      else Inr (elog LOG ''PG-Strom: zone %p-%p was mapped (len: %luMB)''
                  [int address, (int address + int len - 1) mod 2 ^ 64, int (len div 2 ^ 20)] s1))"

text \<open>
  Modelled from the spec: \<open>pgstrom_setup_shmem\<close> lives in another file of PG-Strom. The
  spec says the core receives from the shared-memory initializer a sequence of
  (address, length) zone descriptors, returns a pinned buffer per zone, and that a zone
  that cannot be pinned is fatal to startup. The zones are those of the environment.
\<close>

fun setup_shmem_zones :: "(nat \<times> nat \<times> int) list \<Rightarrow> clserv \<Rightarrow> clserv outcome" where
  "setup_shmem_zones [] s = Inr s"
| "setup_shmem_zones ((address, len, rc) # zs) s =
     (case on_shmem_zone_callback address len rc s of
        Inl e \<Rightarrow> Inl e
      | Inr s' \<Rightarrow> setup_shmem_zones zs s')"

definition pgstrom_setup_shmem :: "environment \<Rightarrow> 64 word \<Rightarrow> clserv \<Rightarrow> clserv outcome" where
  "pgstrom_setup_shmem env zone_length s =
     setup_shmem_zones (shmem_zones env) (emit (PgstromSetupShmem zone_length) s)"

text \<open>
  The loop \<^verbatim>\<open>for (i=0; i < opencl_num_devices; i++)\<close> over the device registry: the
  list holds \<open>opencl_device_info[i]\<close>, \<open>opencl_device_info[i+1]\<close>, ... and
  \<open>zone_length\<close> is the running value of the local variable (a \<open>Size\<close>, compared
  unsigned with the \<open>cl_ulong\<close> field).
\<close>

fun create_command_queues ::
  "environment \<Rightarrow> nat \<Rightarrow> pgstrom_device_info list \<Rightarrow> 64 word \<Rightarrow> clserv
     \<Rightarrow> (64 word \<times> clserv) outcome" where
  "create_command_queues env i [] zone_length s = Inr (zone_length, s)"
| "create_command_queues env i (dev_info # rest) zone_length s =
     (let rc = clCreateCommandQueue_rc env i;
          s1 = emit (ClCreateCommandQueue i rc) s
      in if rc \<noteq> CL_SUCCESS
         then Inl (ErrorExit, elog ERROR ''clCreateCommandQueue failed: %s'' [rc] s1)
         else create_command_queues env (Suc i) rest
                (if zone_length > dev_max_mem_alloc_size dev_info
                 then dev_max_mem_alloc_size dev_info else zone_length) s1)"

definition init_opencl_context_and_shmem ::
  "environment \<Rightarrow> pgstrom_device_info list \<Rightarrow> clserv \<Rightarrow> clserv outcome" where
  "init_opencl_context_and_shmem env opencl_device_info s =
     (let rc = clCreateContext_rc env;
          s1 = emit (ClCreateContext (length opencl_device_info) rc) s
      in if rc \<noteq> CL_SUCCESS
         then Inl (ErrorExit, elog ERROR ''clCreateContext failed: %s'' [rc] s1)
         else (case create_command_queues env 0 opencl_device_info LONG_MAX s1 of
                 Inl e \<Rightarrow> Inl e
               | Inr (zone_length, s2) \<Rightarrow>
                   pgstrom_setup_shmem env zone_length
                     (elog LOG ''PG-Strom: setting up shared memory (zone length=%zu)''
                        [uint zone_length] s2)))"

subsection \<open>Main routine\<close>

text \<open>
  \<^verbatim>\<open>for (i=0; i < opencl_num_threads; i++) if (pthread_create(...) != 0) break;\<close>
  returns the value of \<open>i\<close> after the loop.
\<close>

function create_threads :: "environment \<Rightarrow> int \<Rightarrow> int \<Rightarrow> clserv \<Rightarrow> int \<times> clserv" where
  "create_threads env n i s =
     (if i < n
      then (let rc = pthread_create_rc env i;
                s1 = emit (PthreadCreate i rc) s
            in if rc \<noteq> 0 then (i, s1) else create_threads env n (i + 1) s1)
      else (i, s))"
  by pat_completeness auto
termination
  by (relation "measure (\<lambda>(env, n, i, s). nat (n - i))") auto

text \<open>\<^verbatim>\<open>while (--i >= 0) pthread_join(threads[i], NULL);\<close>\<close>

function join_threads :: "int \<Rightarrow> clserv \<Rightarrow> clserv" where
  "join_threads i s =
     (if i - 1 \<ge> 0 then join_threads (i - 1) (emit (PthreadJoin (i - 1)) s) else s)"
  by pat_completeness auto
termination
  by (relation "measure (\<lambda>(i, s). nat i)") auto

declare create_threads.simps [simp del]
declare join_threads.simps [simp del]

text \<open>
  \<open>sizeof(pthread_t)\<close> is 8 on the 64-bit platforms of the server; the product with
  the \<open>int\<close> count is taken in \<open>size_t\<close>, the count sign-extended.
\<close>

definition pgstrom_opencl_main ::
  "environment \<Rightarrow> pgstrom_device_info list \<Rightarrow> clserv \<Rightarrow> clserv outcome" where
  "pgstrom_opencl_main env opencl_device_info s0 =
     (let s1 = s0\<lparr>pgstrom_i_am_clserv := True\<rparr>;
          s2 = (emit (Pqsignal SIGTERM) (emit (Pqsignal SIGHUP) s1))\<lparr>ImmediateInterruptOK := False\<rparr>;
          s3 = emit BackgroundWorkerUnblockSignals s2
      in case init_opencl_context_and_shmem env opencl_device_info s3 of
           Inl e \<Rightarrow> Inl e
         | Inr s4 \<Rightarrow>
            (let s5 = elog LOG ''Starting PG-Strom OpenCL Server'' [] s4;
                 s6 = (if opencl_num_threads s5 = 0
                       then (emit Sysconf s5)\<lparr>opencl_num_threads :=
                               ucast (sysconf_nprocessors_onln env)\<rparr>
                       else s5);
                 n = sint (opencl_num_threads s6)
             in if assert_checking env \<and> \<not> n > 0 then Inl (AssertFailure, s6)
                else
                 (let size = 8 * (word_of_int n :: 64 word);
                      s7 = emit (Malloc size) s6
                  in if \<not> malloc_ok env size then Inr (elog LOG ''out of memory'' [] s7)
                     else
                      (case create_threads env n 0 s7 of (i, s8) \<Rightarrow>
                        (let s9 = (if i < n
                                   then pgstrom_cancel_server_loop
                                          ((elog LOG ''failed to create server threads'' [] s8)
                                             \<lparr>pgstrom_clserv_exit_pending := True\<rparr>)
                                   else elog LOG ''PG-Strom: %d of server threads are up'' [n] s8);
                             s10 = join_threads i s9;
                             s11 = elog LOG ''Stopping PG-Strom OpenCL Server'' [] s10
                         in Inr (pgstrom_close_server_queue s11))))))"

subsection \<open>Log writer\<close>

text \<open>
  \<open>__clserv_log\<close> composes the message in \<^verbatim>\<open>char buf[8192]\<close> with three calls
  \<^verbatim>\<open>ofs += snprintf(buf+ofs, sizeof(buf)-ofs, ...)\<close>. The variable \<open>ofs\<close> is a
  \<open>size_t\<close>: sums and differences are taken modulo \<open>2^64\<close>.
\<close>

definition sizeof_buf :: nat where
  "sizeof_buf = 8192"

definition size_t_of_int :: "int \<Rightarrow> nat" where
  "size_t_of_int i = nat (i mod 2 ^ 64)"

definition size_t_add :: "nat \<Rightarrow> nat \<Rightarrow> nat" where
  "size_t_add a b = (a + b) mod 2 ^ 64"

definition size_t_sub :: "nat \<Rightarrow> nat \<Rightarrow> nat" where
  "size_t_sub a b = (a + 2 ^ 64 - b) mod 2 ^ 64"

definition NUL :: char where
  "NUL = CHR 0x00"

text \<open>
  \<open>snprintf(buf + ofs, n, ...)\<close>, the format and its arguments expanding to the
  string \<open>s\<close>: it stores at most \<open>n - 1\<close> characters of \<open>s\<close> and a terminating
  \<open>NUL\<close>, nothing at all when \<open>n\<close> is 0, and returns the length of \<open>s\<close>, the
  number of characters that a buffer large enough would have received (-1 when that
  number does not fit an \<open>int\<close>). A store that leaves the array is undefined behaviour:
  it is the fault \<open>BufferOverrun\<close>, with the offset and the number of bytes stored.
\<close>

datatype log_fault = BufferOverrun nat nat

definition snprintf :: "char list \<Rightarrow> nat \<Rightarrow> nat \<Rightarrow> string \<Rightarrow> log_fault + (char list \<times> int)" where
  "snprintf buf ofs n s =
     (let stored = (if n = 0 then [] else take (n - 1) s @ [NUL])
      in if stored \<noteq> [] \<and> length buf < ofs + length stored
         then Inl (BufferOverrun ofs (length stored))
         else Inr (take ofs buf @ stored @ drop (ofs + length stored) buf,
                   if length s < 2 ^ 31 then int (length s) else - 1))"

text \<open>The decimal digits that \<open>%d\<close> prints.\<close>

fun digits :: "nat \<Rightarrow> string" where
  "digits n =
     (if n < 10 then [''0123456789'' ! n]
      else digits (n div 10) @ [''0123456789'' ! (n mod 10)])"

declare digits.simps [simp del]

definition show_int :: "int \<Rightarrow> string" where
  "show_int i = (if i < 0 then CHR ''-'' # digits (nat (- i)) else digits (nat i))"

text \<open>
  The head of the line, \<^verbatim>\<open>"LOG: (%s:%d, %s) "\<close> or \<^verbatim>\<open>"LOG: (%s:%d) "\<close>;
  \<open>verbose\<close> is \<open>Log_error_verbosity == PGERROR_VERBOSE\<close>.
\<close>

definition log_head :: "bool \<Rightarrow> string \<Rightarrow> string \<Rightarrow> int \<Rightarrow> string" where
  "log_head verbose funcname filename lineno =
     (if verbose
      then ''LOG: ('' @ filename @ '':'' @ show_int lineno @ '', '' @ funcname @ '') ''
      else ''LOG: ('' @ filename @ '':'' @ show_int lineno @ '') '')"

text \<open>
  The three stores. \<open>body\<close> is the expansion of the caller's format with its
  arguments, and \<open>buf\<close> is the content of the array when the function is entered.
\<close>

definition clserv_log_compose ::
  "bool \<Rightarrow> string \<Rightarrow> string \<Rightarrow> int \<Rightarrow> string \<Rightarrow> char list \<Rightarrow> log_fault + char list" where
  "clserv_log_compose verbose funcname filename lineno body buf =
     (let ofs = 0
      in case snprintf buf ofs (size_t_sub sizeof_buf ofs)
                (log_head verbose funcname filename lineno) of
           Inl f \<Rightarrow> Inl f
         | Inr (buf1, r1) \<Rightarrow>
            (let ofs1 = size_t_add ofs (size_t_of_int r1)
             in case snprintf buf1 ofs1 (size_t_sub sizeof_buf ofs1) body of
                  Inl f \<Rightarrow> Inl f
                | Inr (buf2, r2) \<Rightarrow>
                   (let ofs2 = size_t_add ofs1 (size_t_of_int r2)
                    in case snprintf buf2 ofs2 (size_t_sub sizeof_buf ofs2) [CHR 0x0A] of
                         Inl f \<Rightarrow> Inl f
                       | Inr (buf3, r3) \<Rightarrow> Inr buf3)))"

text \<open>
  What is written to the file descriptor of \<open>stderr\<close>: frames of the pipe protocol
  (\<open>is_last\<close>, \<open>len\<close> and the payload; the header also holds the process id) or the
  bare message.
\<close>

datatype log_write = Frame char nat string | Raw string

text \<open>
  \<^verbatim>\<open>while (len > PIPE_MAX_PAYLOAD) { ... len -= PIPE_MAX_PAYLOAD; }\<close> followed by the
  last chunk, which this file also marks \<open>'f'\<close>. \<open>PIPE_MAX_PAYLOAD\<close> is a constant of
  PostgreSQL's syslogger.h, a parameter here; were it 0 the loop would not end on a
  message that is not empty, which is the result \<open>None\<close>.
\<close>

function write_pipe_chunks :: "nat \<Rightarrow> string \<Rightarrow> log_write list option" where
  "write_pipe_chunks PIPE_MAX_PAYLOAD data =
     (if PIPE_MAX_PAYLOAD < length data
      then (if PIPE_MAX_PAYLOAD = 0 then None
            else map_option (Cons (Frame CHR ''f'' PIPE_MAX_PAYLOAD (take PIPE_MAX_PAYLOAD data)))
                   (write_pipe_chunks PIPE_MAX_PAYLOAD (drop PIPE_MAX_PAYLOAD data)))
      else Some [Frame CHR ''f'' (length data) data])"
  by pat_completeness auto
termination
  by (relation "measure (\<lambda>(p, data). length data)") auto

declare write_pipe_chunks.simps [simp del]

text \<open>
  The function \<open>__clserv_log\<close>. \<open>to_stderr\<close> is the test
  \<^verbatim>\<open>(Log_destination & LOG_DESTINATION_STDERR) || whereToSendOutput == DestDebug\<close> and
  \<open>redirected\<close> is \<^verbatim>\<open>redirection_done && !am_syslogger\<close>; \<open>strlen(buf)\<close> reads the
  array up to its first \<open>NUL\<close>.
\<close>

definition clserv_log_function ::
  "bool \<Rightarrow> bool \<Rightarrow> bool \<Rightarrow> nat \<Rightarrow> string \<Rightarrow> string \<Rightarrow> int \<Rightarrow> string \<Rightarrow> char list
     \<Rightarrow> log_fault + log_write list option" where
  "clserv_log_function verbose to_stderr redirected PIPE_MAX_PAYLOAD
       funcname filename lineno body buf =
     (case clserv_log_compose verbose funcname filename lineno body buf of
        Inl f \<Rightarrow> Inl f
      | Inr buf' \<Rightarrow>
          if to_stderr
          then (let data = takeWhile (\<lambda>c. c \<noteq> NUL) buf'
                in if redirected then Inr (write_pipe_chunks PIPE_MAX_PAYLOAD data)
                   else Inr (Some [Raw data]))
          else Inr (Some []))"

text \<open>The state in which the main routine stopped, however it stopped.\<close>

fun final :: "clserv outcome \<Rightarrow> clserv" where
  "final (Inl (a, s)) = s"
| "final (Inr s) = s"

section \<open>Reading the traces\<close>
subsection \<open>Threads created and joined\<close>
text \<open>
  The calls of \<open>pthread_create\<close> in a trace with their return codes, the threads
  that were in fact created (return code 0), the threads joined, and the set of threads
  created and not yet joined at the end of a trace.
\<close>
definition pthread_creates :: "event list \<Rightarrow> (int \<times> int) list" where
  "pthread_creates tr = concat (map (\<lambda>e. case e of PthreadCreate i rc \<Rightarrow> [(i, rc)] | _ \<Rightarrow> []) tr)"

definition spawned :: "event list \<Rightarrow> int list" where
  "spawned tr = map fst (filter (\<lambda>(i, rc). rc = 0) (pthread_creates tr))"

definition joined :: "event list \<Rightarrow> int list" where
  "joined tr = concat (map (\<lambda>e. case e of PthreadJoin i \<Rightarrow> [i] | _ \<Rightarrow> []) tr)"

definition thread_step :: "int set \<Rightarrow> event \<Rightarrow> int set" where
  "thread_step A e =
     (case e of PthreadCreate i rc \<Rightarrow> if rc = 0 then insert i A else A
      | PthreadJoin i \<Rightarrow> A - {i}
      | _ \<Rightarrow> A)"

definition alive :: "event list \<Rightarrow> int set" where
  "alive tr = foldl thread_step {} tr"

text \<open>The events before the first close of the server queue.\<close>
definition before_close :: "event list \<Rightarrow> event list" where
  "before_close tr = takeWhile (\<lambda>e. e \<noteq> CloseServerQueue) tr"

text \<open>The events that the main routine adds to the trace.\<close>
definition main_events :: "environment \<Rightarrow> pgstrom_device_info list \<Rightarrow> clserv \<Rightarrow> event list" where
  "main_events env devs s = drop (length (trace s)) (trace (final (pgstrom_opencl_main env devs s)))"

text \<open>
  The events of the start-up phase: everything but the allocation of the handle array,
  thread creation and joining, cancellation, and the close of the queue.
\<close>
definition quiet_event :: "event \<Rightarrow> bool" where
  "quiet_event e = (case e of PthreadCreate i rc \<Rightarrow> False | PthreadJoin i \<Rightarrow> False
      | CancelServerLoop \<Rightarrow> False | CloseServerQueue \<Rightarrow> False | Malloc sz \<Rightarrow> False | _ \<Rightarrow> True)"

subsection \<open>The phases of the main routine, as lists of events\<close>
text \<open>The events of \<open>pgstrom_setup_shmem\<close>'s walk through the zones.\<close>
fun zones_events :: "(nat \<times> nat \<times> int) list \<Rightarrow> event list" where
  "zones_events [] = []"
| "zones_events ((a, l, rc) # zs) =
     (if rc \<noteq> CL_SUCCESS
      then [ClCreateBuffer a l rc,
            Elog ERROR ''clCreateBuffer failed on host memory (%p-%p): %s''
              [int a, (int a + int l - 1) mod 2 ^ 64, rc]]
      else [ClCreateBuffer a l rc,
            Elog LOG ''PG-Strom: zone %p-%p was mapped (len: %luMB)''
              [int a, (int a + int l - 1) mod 2 ^ 64, int (l div 2 ^ 20)]] @ zones_events zs)"

text \<open>The events of the loop that creates the command queues, from device \<open>i\<close> on.\<close>
fun cmdq_events :: "environment \<Rightarrow> nat \<Rightarrow> pgstrom_device_info list \<Rightarrow> event list" where
  "cmdq_events env i [] = []"
| "cmdq_events env i (d # ds) =
     (if clCreateCommandQueue_rc env i \<noteq> CL_SUCCESS
      then [ClCreateCommandQueue i (clCreateCommandQueue_rc env i),
            Elog ERROR ''clCreateCommandQueue failed: %s'' [clCreateCommandQueue_rc env i]]
      else ClCreateCommandQueue i CL_SUCCESS # cmdq_events env (Suc i) ds)"

text \<open>The minimum to which the loop brings \<open>zone_length\<close>.\<close>
definition zone_length_of :: "pgstrom_device_info list \<Rightarrow> 64 word" where
  "zone_length_of devs = Min (insert LONG_MAX (dev_max_mem_alloc_size ` set devs))"

text \<open>Initialisation succeeds when the context, every command queue and every zone does.\<close>
definition zones_ok :: "(nat \<times> nat \<times> int) list \<Rightarrow> bool" where
  "zones_ok zs = list_all (\<lambda>(a, l, rc). rc = CL_SUCCESS) zs"

definition cmdqs_ok :: "environment \<Rightarrow> nat \<Rightarrow> bool" where
  "cmdqs_ok env n = (\<forall>j < n. clCreateCommandQueue_rc env j = CL_SUCCESS)"

definition init_ok :: "environment \<Rightarrow> pgstrom_device_info list \<Rightarrow> bool" where
  "init_ok env devs =
     (clCreateContext_rc env = CL_SUCCESS \<and> cmdqs_ok env (length devs) \<and> zones_ok (shmem_zones env))"

definition init_events :: "environment \<Rightarrow> pgstrom_device_info list \<Rightarrow> event list" where
  "init_events env devs =
     ClCreateContext (length devs) (clCreateContext_rc env) #
     (if clCreateContext_rc env \<noteq> CL_SUCCESS
      then [Elog ERROR ''clCreateContext failed: %s'' [clCreateContext_rc env]]
      else cmdq_events env 0 devs @
        (if cmdqs_ok env (length devs)
         then [Elog LOG ''PG-Strom: setting up shared memory (zone length=%zu)''
                 [uint (zone_length_of devs)],
               PgstromSetupShmem (zone_length_of devs)] @ zones_events (shmem_zones env)
         else []))"

text \<open>
  The events up to the resolution of the thread count, the count itself, the size of
  the handle array, and the events of the thread pool when the creation loop stopped at
  index \<open>k\<close> of \<open>n\<close>.
\<close>
definition boot_events :: "event list" where
  "boot_events = [Pqsignal SIGHUP, Pqsignal SIGTERM, BackgroundWorkerUnblockSignals]"

definition resolved_threads :: "environment \<Rightarrow> 32 word \<Rightarrow> 32 word" where
  "resolved_threads env cfg = (if cfg = 0 then ucast (sysconf_nprocessors_onln env) else cfg)"

definition resolve_events :: "32 word \<Rightarrow> event list" where
  "resolve_events cfg = (if cfg = 0 then [Sysconf] else [])"

definition handles_size :: "int \<Rightarrow> 64 word" where
  "handles_size n = 8 * word_of_int n"

definition startup_events :: "environment \<Rightarrow> pgstrom_device_info list \<Rightarrow> 32 word \<Rightarrow> event list" where
  "startup_events env devs cfg =
     boot_events @ init_events env devs @
     [Elog LOG ''Starting PG-Strom OpenCL Server'' []] @ resolve_events cfg"

definition pool_events :: "environment \<Rightarrow> int \<Rightarrow> int \<Rightarrow> event list" where
  "pool_events env n k =
     map (\<lambda>j. PthreadCreate j 0) [0 .. k - 1] @
     (if k < n
      then [PthreadCreate k (pthread_create_rc env k),
            Elog LOG ''failed to create server threads'' [], CancelServerLoop]
      else [Elog LOG ''PG-Strom: %d of server threads are up'' [n]]) @
     map PthreadJoin (rev [0 .. k - 1]) @
     [Elog LOG ''Stopping PG-Strom OpenCL Server'' [], CloseServerQueue]"

text \<open>The state after the start-up phase.\<close>
definition started :: "environment \<Rightarrow> pgstrom_device_info list \<Rightarrow> clserv \<Rightarrow> clserv" where
  "started env devs s =
     s\<lparr>pgstrom_i_am_clserv := True, ImmediateInterruptOK := False,
       opencl_num_threads := resolved_threads env (opencl_num_threads s),
       trace := trace s @ startup_events env devs (opencl_num_threads s)\<rparr>"

definition worker_count :: "environment \<Rightarrow> clserv \<Rightarrow> int" where
  "worker_count env s = sint (resolved_threads env (opencl_num_threads s))"

subsection \<open>Example environments\<close>
text \<open>
  Two devices, one shared memory zone, four processors; every call succeeds, and
  \<open>malloc\<close> serves requests of up to 1 MB.
\<close>
definition demo_env :: environment where
  "demo_env =
     \<lparr>clCreateContext_rc = 0, clCreateCommandQueue_rc = (\<lambda>i. 0),
      shmem_zones = [(4096, 2097152, 0)], sysconf_nprocessors_onln = 4,
      assert_checking = True, malloc_ok = (\<lambda>sz. sz \<le> 0x100000),
      pthread_create_rc = (\<lambda>i. 0)\<rparr>"

definition demo_devices :: "pgstrom_device_info list" where
  "demo_devices =
     [\<lparr>dev_max_mem_alloc_size = 0x40000000\<rparr>, \<lparr>dev_max_mem_alloc_size = 0x20000000\<rparr>]"

text \<open>The third \<open>pthread_create\<close> fails with \<open>EAGAIN\<close>.\<close>
definition failing_env :: environment where
  "failing_env = demo_env\<lparr>pthread_create_rc := (\<lambda>i. if i = 2 then 11 else 0)\<rparr>"

text \<open>\<open>malloc\<close> fails.\<close>
definition oom_env :: environment where
  "oom_env = demo_env\<lparr>malloc_ok := (\<lambda>sz. False)\<rparr>"

subsection \<open>Command queues and zone lengths in a trace\<close>
text \<open>
  The devices whose command queue was created, in the order of creation; the events
  before the first call of \<open>pthread_create\<close>; the zone lengths passed to
  \<open>pgstrom_setup_shmem\<close>; the events added by \<open>init_opencl_context_and_shmem\<close>.
\<close>
definition command_queues :: "event list \<Rightarrow> nat list" where
  "command_queues tr =
     concat (map (\<lambda>e. case e of ClCreateCommandQueue i rc \<Rightarrow> if rc = CL_SUCCESS then [i] else []
                        | _ \<Rightarrow> []) tr)"

definition is_pthread_create :: "event \<Rightarrow> bool" where
  "is_pthread_create e = (case e of PthreadCreate i rc \<Rightarrow> True | _ \<Rightarrow> False)"

definition before_spawn :: "event list \<Rightarrow> event list" where
  "before_spawn tr = takeWhile (\<lambda>e. \<not> is_pthread_create e) tr"

definition setup_zone_lengths :: "event list \<Rightarrow> 64 word list" where
  "setup_zone_lengths tr = concat (map (\<lambda>e. case e of PgstromSetupShmem z \<Rightarrow> [z] | _ \<Rightarrow> []) tr)"

definition init_trace :: "environment \<Rightarrow> pgstrom_device_info list \<Rightarrow> clserv \<Rightarrow> event list" where
  "init_trace env devs s =
     drop (length (trace s)) (trace (final (init_opencl_context_and_shmem env devs s)))"

text \<open>
  The command queue of the second device cannot be created; \<open>sysconf\<close> answers -1,
  or 0, in a build without assertion checking.
\<close>
definition broken_env :: environment where
  "broken_env = demo_env\<lparr>clCreateCommandQueue_rc := (\<lambda>i. if i = 1 then - 5 else 0)\<rparr>"

definition no_cpu_env :: environment where
  "no_cpu_env = demo_env\<lparr>sysconf_nprocessors_onln := 0xFFFFFFFFFFFFFFFF, assert_checking := False\<rparr>"

definition zero_cpu_env :: environment where
  "zero_cpu_env =
     demo_env\<lparr>sysconf_nprocessors_onln := 0, assert_checking := False, malloc_ok := (\<lambda>sz. True)\<rparr>"

subsection \<open>The life of the process\<close>
text \<open>
  What can change the shutdown flag: the delivery of one of the two signals and the
  main routine. A life of the process is a sequence of such actions; \<open>lifetime\<close>
  lists the states it goes through and \<open>flag_history\<close> the values of the flag in them.
  \<open>transitions\<close> counts the changes of value in a history and \<open>cancel_requests\<close>
  the calls of \<open>pgstrom_cancel_server_loop\<close> in a trace.
\<close>
datatype action = Deliver signal | Main environment "pgstrom_device_info list"

fun perform :: "action \<Rightarrow> clserv \<Rightarrow> clserv" where
  "perform (Deliver sg) s = deliver sg s"
| "perform (Main env devs) s = final (pgstrom_opencl_main env devs s)"

fun lifetime :: "clserv \<Rightarrow> action list \<Rightarrow> clserv list" where
  "lifetime s [] = [s]"
| "lifetime s (a # as) = s # lifetime (perform a s) as"

definition flag_history :: "clserv \<Rightarrow> action list \<Rightarrow> bool list" where
  "flag_history s as = map pgstrom_clserv_exit_pending (lifetime s as)"

definition transitions :: "bool list \<Rightarrow> nat" where
  "transitions bs = length (filter (\<lambda>(a, b). a \<noteq> b) (zip bs (tl bs)))"

definition cancel_requests :: "event list \<Rightarrow> nat" where
  "cancel_requests tr = length (filter (\<lambda>e. e = CancelServerLoop) tr)"

subsection \<open>The worker loop of the specification\<close>
text \<open>
  The loop as the specification words it: one pass per poll before the first one that
  finds the flag set; a pass dequeues, and invokes the callback of the message if there
  is one.
\<close>
fun spec_pass :: "poll \<Rightarrow> worker_event list" where
  "spec_pass ExitPending = []"
| "spec_pass (Running None) = [CheckForInterrupts, Dequeue None]"
| "spec_pass (Running (Some m)) =
     [CheckForInterrupts, Dequeue (Some m), Callback (cb_process m) m]"

definition spec_event_loop :: "poll list \<Rightarrow> worker_event list option" where
  "spec_event_loop ps =
     (if ExitPending \<in> set ps
      then Some (concat (map spec_pass (takeWhile (\<lambda>p. p \<noteq> ExitPending) ps)))
      else None)"

text \<open>The callbacks invoked and the messages dequeued in a worker's trace.\<close>
definition callbacks :: "worker_event list \<Rightarrow> (nat \<times> pgstrom_message) list" where
  "callbacks tr = concat (map (\<lambda>e. case e of Callback c m \<Rightarrow> [(c, m)] | _ \<Rightarrow> []) tr)"

definition dequeued :: "worker_event list \<Rightarrow> pgstrom_message list" where
  "dequeued tr = concat (map (\<lambda>e. case e of Dequeue (Some m) \<Rightarrow> [m] | _ \<Rightarrow> []) tr)"

text \<open>The flag is read as true on the third pass; a fourth message is never fetched.\<close>
definition demo_polls :: "poll list" where
  "demo_polls =
     [Running None, Running (Some \<lparr>msg_id = 1, cb_process = 7\<rparr>), ExitPending,
      Running (Some \<lparr>msg_id = 2, cb_process = 9\<rparr>)]"

subsection \<open>Frames\<close>
text \<open>The length field and the payload of what is written.\<close>
definition payload_length :: "log_write \<Rightarrow> nat" where
  "payload_length w = (case w of Frame l n p \<Rightarrow> n | Raw p \<Rightarrow> length p)"

definition payload :: "log_write \<Rightarrow> string" where
  "payload w = (case w of Frame l n p \<Rightarrow> p | Raw p \<Rightarrow> p)"

section \<open>The main routine\<close>
subsection \<open>Initialisation of context, command queues and shared memory\<close>
lemma emit_fields [simp]:
  "trace (emit e s) = trace s @ [e]"
  "opencl_num_threads (emit e s) = opencl_num_threads s"
  "pgstrom_clserv_exit_pending (emit e s) = pgstrom_clserv_exit_pending s"
  by (simp_all add: emit_def)

lemma emit_as_update: "emit e s = s\<lparr>trace := trace s @ [e]\<rparr>"
  by (simp add: emit_def)

lemma quiet_zones: "list_all quiet_event (zones_events zs)"
  by (induction zs rule: zones_events.induct) (simp_all add: quiet_event_def)

lemma quiet_cmdq: "list_all quiet_event (cmdq_events env i devs)"
  by (induction env i devs rule: cmdq_events.induct) (simp_all add: quiet_event_def)

lemma Min_insert_min:
  "finite A \<Longrightarrow> Min (insert (min a b) A) = Min (insert a (insert b A))"
  by (cases "A = {}") (simp_all add: min.assoc)

lemma cmdq_Inr:
  "create_command_queues env i devs zl s = Inr (zl', s') \<Longrightarrow>
     s' = s\<lparr>trace := trace s @ map (\<lambda>j. ClCreateCommandQueue j CL_SUCCESS) [i ..< i + length devs]\<rparr>
     \<and> zl' = Min (insert zl (dev_max_mem_alloc_size ` set devs))
     \<and> (\<forall>j < length devs. clCreateCommandQueue_rc env (i + j) = CL_SUCCESS)"
proof (induction devs arbitrary: i zl s)
  case Nil
  then show ?case by simp
next
  case (Cons d ds)
  let ?zl = "if zl > dev_max_mem_alloc_size d then dev_max_mem_alloc_size d else zl"
  from Cons.prems have ok: "clCreateCommandQueue_rc env i = CL_SUCCESS"
    by (simp add: Let_def split: if_splits)
  with Cons.prems have rec: "create_command_queues env (Suc i) ds ?zl
       (emit (ClCreateCommandQueue i CL_SUCCESS) s) = Inr (zl', s')"
    by (simp add: Let_def)
  note IH = Cons.IH [OF rec]
  have upt: "[i ..< i + length (d # ds)] = i # [Suc i ..< i + length (d # ds)]"
    by (rule upt_conv_Cons) simp
  have trace: "s' = s\<lparr>trace := trace s @ map (\<lambda>j. ClCreateCommandQueue j CL_SUCCESS) [i ..< i + length (d # ds)]\<rparr>"
    unfolding upt using IH by (simp add: emit_as_update)
  have "?zl = min zl (dev_max_mem_alloc_size d)" by (auto simp add: min_def)
  then have zl: "zl' = Min (insert zl (dev_max_mem_alloc_size ` set (d # ds)))"
    using IH Min_insert_min [of "dev_max_mem_alloc_size ` set ds" zl "dev_max_mem_alloc_size d"]
    by simp
  have "\<forall>j < length (d # ds). clCreateCommandQueue_rc env (i + j) = CL_SUCCESS"
    using IH ok by (auto simp: less_Suc_eq_0_disj)
  with trace zl show ?case by blast
qed

lemma cmdq_Inl:
  "create_command_queues env i devs zl s = Inl (a, s') \<Longrightarrow>
     a = ErrorExit \<and> s' = s\<lparr>trace := trace s @ cmdq_events env i devs\<rparr>
      \<and> (\<exists>j < length devs. clCreateCommandQueue_rc env (i + j) \<noteq> CL_SUCCESS)"
proof (induction devs arbitrary: i zl s)
  case Nil
  then show ?case by simp
next
  case (Cons d ds)
  show ?case
  proof (cases "clCreateCommandQueue_rc env i = CL_SUCCESS")
    case False
    with Cons.prems show ?thesis
      by (auto simp add: Let_def emit_as_update elog_def)
  next
    case True
    with Cons.prems Cons.IH show ?thesis
      by (fastforce simp add: Let_def emit_as_update)
  qed
qed

lemma zones_eq:
  "setup_shmem_zones zs s =
     (if zones_ok zs then Inr (s\<lparr>trace := trace s @ zones_events zs\<rparr>)
      else Inl (ErrorExit, s\<lparr>trace := trace s @ zones_events zs\<rparr>))"
proof (induction zs arbitrary: s)
  case Nil
  show ?case by (simp add: zones_ok_def)
next
  case (Cons z zs)
  obtain a l rc where z: "z = (a, l, rc)" by (cases z)
  have IH: "setup_shmem_zones zs s' =
     (if zones_ok zs then Inr (s'\<lparr>trace := trace s' @ zones_events zs\<rparr>)
      else Inl (ErrorExit, s'\<lparr>trace := trace s' @ zones_events zs\<rparr>))" for s'
    by (rule Cons.IH)
  show ?case
    by (simp add: z on_shmem_zone_callback_def elog_def emit_as_update IH)
       (simp add: zones_ok_def)
qed

lemma cmdq_events_ok:
  "\<forall>j < length devs. clCreateCommandQueue_rc env (i + j) = CL_SUCCESS \<Longrightarrow>
     cmdq_events env i devs = map (\<lambda>j. ClCreateCommandQueue j CL_SUCCESS) [i ..< i + length devs]"
proof (induction devs arbitrary: i)
  case Nil
  show ?case by simp
next
  case (Cons d ds)
  have upt: "[i ..< i + length (d # ds)] = i # [Suc i ..< i + length (d # ds)]"
    by (rule upt_conv_Cons) simp
  from Cons.prems have 0: "clCreateCommandQueue_rc env i = CL_SUCCESS" by fastforce
  from Cons.prems have "\<forall>j < length ds. clCreateCommandQueue_rc env (Suc i + j) = CL_SUCCESS"
    by fastforce
  from Cons.IH [OF this] 0 show ?case unfolding upt by simp
qed

lemma cmdq_eq:
  "create_command_queues env i devs zl s =
     (if \<forall>j < length devs. clCreateCommandQueue_rc env (i + j) = CL_SUCCESS
      then Inr (Min (insert zl (dev_max_mem_alloc_size ` set devs)),
                s\<lparr>trace := trace s @ cmdq_events env i devs\<rparr>)
      else Inl (ErrorExit, s\<lparr>trace := trace s @ cmdq_events env i devs\<rparr>))"
proof (cases "create_command_queues env i devs zl s")
  case (Inl e)
  obtain a s' where e: "e = (a, s')" by (cases e)
  from cmdq_Inl [OF Inl [unfolded e]] show ?thesis
    by (auto simp add: Inl e)
next
  case (Inr r)
  obtain zl' s' where r: "r = (zl', s')" by (cases r)
  from cmdq_Inr [OF Inr [unfolded r]] show ?thesis
    by (simp add: Inr r cmdq_events_ok)
qed

lemma init_eq:
  "init_opencl_context_and_shmem env devs s =
     (if init_ok env devs then Inr (s\<lparr>trace := trace s @ init_events env devs\<rparr>)
      else Inl (ErrorExit, s\<lparr>trace := trace s @ init_events env devs\<rparr>))"
  by (simp add: init_opencl_context_and_shmem_def Let_def cmdq_eq pgstrom_setup_shmem_def
        zones_eq elog_def emit_as_update init_ok_def init_events_def cmdqs_ok_def
        zone_length_of_def)

lemma quiet_init: "list_all quiet_event (init_events env devs)"
  by (simp add: init_events_def quiet_cmdq quiet_zones) (simp add: quiet_event_def)

subsection \<open>The thread loops\<close>
lemma create_threads_shape:
  "create_threads env n i s = (k, s') \<Longrightarrow>
     i \<le> k \<and> (k \<le> n \<or> k = i) \<and> (\<forall>j. i \<le> j \<and> j < k \<longrightarrow> pthread_create_rc env j = 0)
     \<and> (k < n \<longrightarrow> pthread_create_rc env k \<noteq> 0)
     \<and> s' = s\<lparr>trace := trace s @ map (\<lambda>j. PthreadCreate j 0) [i .. k - 1] @
                (if k < n then [PthreadCreate k (pthread_create_rc env k)] else [])\<rparr>"
proof (induction env n i s rule: create_threads.induct)
  case (1 env n i s)
  show ?case
  proof (cases "i < n")
    case False
    with "1.prems" show ?thesis
      by (simp add: create_threads.simps [of env n i s])
  next
    case True
    show ?thesis
    proof (cases "pthread_create_rc env i = 0")
      case False
      with True "1.prems" show ?thesis
        by (auto simp add: create_threads.simps [of env n i s] Let_def emit_as_update)
    next
      case rc: True
      from True rc "1.prems"
      have rec: "create_threads env n (i + 1)
                   (emit (PthreadCreate i (pthread_create_rc env i)) s) = (k, s')"
        by (simp add: create_threads.simps [of env n i s] Let_def)
      have nz: "\<not> pthread_create_rc env i \<noteq> 0" using rc by simp
      from "1.IH" [OF True refl refl nz rec] rc
      have IH: "i + 1 \<le> k" "k \<le> n \<or> k = i + 1"
        "\<forall>j. i + 1 \<le> j \<and> j < k \<longrightarrow> pthread_create_rc env j = 0"
        "k < n \<longrightarrow> pthread_create_rc env k \<noteq> 0"
        "s' = (emit (PthreadCreate i 0) s)\<lparr>trace := trace (emit (PthreadCreate i 0) s) @
                map (\<lambda>j. PthreadCreate j 0) [i + 1 .. k - 1] @
                (if k < n then [PthreadCreate k (pthread_create_rc env k)] else [])\<rparr>"
        by simp_all
      have upto: "[i .. k - 1] = i # [i + 1 .. k - 1]"
        using IH(1) by (simp add: upto_rec1)
      have a: "i \<le> k" using IH(1) by simp
      have b: "k \<le> n \<or> k = i" using IH(2) True by auto
      have c: "\<forall>j. i \<le> j \<and> j < k \<longrightarrow> pthread_create_rc env j = 0"
      proof (intro allI impI)
        fix j assume "i \<le> j \<and> j < k"
        then have "j = i \<or> (i + 1 \<le> j \<and> j < k)" by auto
        then show "pthread_create_rc env j = 0" using rc IH(3) by auto
      qed
      have d: "s' = s\<lparr>trace := trace s @ map (\<lambda>j. PthreadCreate j 0) [i .. k - 1] @
                (if k < n then [PthreadCreate k (pthread_create_rc env k)] else [])\<rparr>"
        unfolding upto using IH(5) by (simp add: emit_as_update)
      from a b c d IH(4) show ?thesis by blast
    qed
  qed
qed

lemma join_threads_eq:
  "join_threads i s = s\<lparr>trace := trace s @ map PthreadJoin (rev [0 .. i - 1])\<rparr>"
proof (induction i s rule: join_threads.induct)
  case (1 i s)
  show ?case
  proof (cases "i - 1 \<ge> 0")
    case False
    then show ?thesis by (simp add: join_threads.simps [of i s])
  next
    case True
    have "[0 .. i - 1] = [0 .. i - 1 - 1] @ [i - 1]"
      using True by (simp add: upto_rec2)
    then show ?thesis
      using True "1.IH" [OF True]
      by (simp add: join_threads.simps [of i s] emit_as_update)
  qed
qed

subsection \<open>The four ways the main routine ends\<close>
lemma main_unfold:
  "pgstrom_opencl_main env devs s =
     (if \<not> init_ok env devs
      then Inl (ErrorExit, s\<lparr>pgstrom_i_am_clserv := True, ImmediateInterruptOK := False,
                  trace := trace s @ boot_events @ init_events env devs\<rparr>)
      else if assert_checking env \<and> \<not> 0 < sint (resolved_threads env (opencl_num_threads s))
      then Inl (AssertFailure, started env devs s)
      else if \<not> malloc_ok env (handles_size (sint (resolved_threads env (opencl_num_threads s))))
      then Inr (elog LOG ''out of memory'' []
                 (emit (Malloc (handles_size (sint (resolved_threads env (opencl_num_threads s)))))
                   (started env devs s)))
      else (case create_threads env (sint (resolved_threads env (opencl_num_threads s))) 0
                  (emit (Malloc (handles_size (sint (resolved_threads env (opencl_num_threads s)))))
                     (started env devs s)) of
              (i, s8) \<Rightarrow>
                Inr (pgstrom_close_server_queue
                  (elog LOG ''Stopping PG-Strom OpenCL Server'' []
                    (join_threads i
                      (if i < sint (resolved_threads env (opencl_num_threads s))
                       then pgstrom_cancel_server_loop
                              ((elog LOG ''failed to create server threads'' [] s8)
                                 \<lparr>pgstrom_clserv_exit_pending := True\<rparr>)
                       else elog LOG ''PG-Strom: %d of server threads are up''
                              [sint (resolved_threads env (opencl_num_threads s))] s8))))))"
proof (cases "opencl_num_threads s = 0")
  case True
  then show ?thesis
    by (simp add: pgstrom_opencl_main_def Let_def init_eq emit_as_update boot_events_def
        elog_def startup_events_def resolve_events_def resolved_threads_def handles_size_def
        started_def split: prod.split)
next
  case False
  then show ?thesis
    by (simp add: pgstrom_opencl_main_def Let_def init_eq emit_as_update boot_events_def
        elog_def startup_events_def resolve_events_def resolved_threads_def handles_size_def
        started_def split: prod.split)
qed

lemma main_cases [consumes 0, case_names init_fail assert_fail malloc_fail run]:
  obtains
    (init_fail) s' where "\<not> init_ok env devs"
      "pgstrom_opencl_main env devs s = Inl (ErrorExit, s')"
      "trace s' = trace s @ boot_events @ init_events env devs"
      "pgstrom_clserv_exit_pending s' = pgstrom_clserv_exit_pending s"
  | (assert_fail) s' where "init_ok env devs" "assert_checking env" "\<not> 0 < worker_count env s"
      "pgstrom_opencl_main env devs s = Inl (AssertFailure, s')"
      "trace s' = trace s @ startup_events env devs (opencl_num_threads s)"
      "pgstrom_clserv_exit_pending s' = pgstrom_clserv_exit_pending s"
  | (malloc_fail) s' where "init_ok env devs" "assert_checking env \<longrightarrow> 0 < worker_count env s"
      "\<not> malloc_ok env (handles_size (worker_count env s))"
      "pgstrom_opencl_main env devs s = Inr s'"
      "trace s' = trace s @ startup_events env devs (opencl_num_threads s) @
          [Malloc (handles_size (worker_count env s)), Elog LOG ''out of memory'' []]"
      "pgstrom_clserv_exit_pending s' = pgstrom_clserv_exit_pending s"
  | (run) k s' where "init_ok env devs" "assert_checking env \<longrightarrow> 0 < worker_count env s"
      "malloc_ok env (handles_size (worker_count env s))"
      "pgstrom_opencl_main env devs s = Inr s'"
      "0 \<le> k" "k \<le> worker_count env s \<or> k = 0"
      "\<forall>j. 0 \<le> j \<and> j < k \<longrightarrow> pthread_create_rc env j = 0"
      "k < worker_count env s \<longrightarrow> pthread_create_rc env k \<noteq> 0"
      "trace s' = trace s @ startup_events env devs (opencl_num_threads s) @
          [Malloc (handles_size (worker_count env s))] @ pool_events env (worker_count env s) k"
      "pgstrom_clserv_exit_pending s' = (pgstrom_clserv_exit_pending s \<or> k < worker_count env s)"
proof -
  define n where "n = worker_count env s"
  have n: "sint (resolved_threads env (opencl_num_threads s)) = n"
    by (simp add: n_def worker_count_def)
  consider (a) "\<not> init_ok env devs"
    | (b) "init_ok env devs" "assert_checking env \<and> \<not> 0 < n"
    | (c) "init_ok env devs" "\<not> (assert_checking env \<and> \<not> 0 < n)" "\<not> malloc_ok env (handles_size n)"
    | (d) "init_ok env devs" "\<not> (assert_checking env \<and> \<not> 0 < n)" "malloc_ok env (handles_size n)"
    by blast
  then show thesis
  proof cases
    case a
    show thesis
      by (rule init_fail [of "s\<lparr>pgstrom_i_am_clserv := True, ImmediateInterruptOK := False,
                  trace := trace s @ boot_events @ init_events env devs\<rparr>"])
         (use a in \<open>simp_all add: main_unfold\<close>)
  next
    case b
    show thesis
      by (rule assert_fail [of "started env devs s"])
         (use b in \<open>simp_all add: main_unfold n n_def [symmetric] started_def\<close>)
  next
    case c
    show thesis
      by (rule malloc_fail [of "elog LOG ''out of memory'' []
                 (emit (Malloc (handles_size n)) (started env devs s))"])
         (use c in \<open>simp_all add: main_unfold n n_def [symmetric] started_def elog_def\<close>)
  next
    case d
    define s7 where "s7 = emit (Malloc (handles_size n)) (started env devs s)"
    obtain k s8 where ct: "create_threads env n 0 s7 = (k, s8)"
      by (cases "create_threads env n 0 s7")
    note sh = create_threads_shape [OF ct]
    define s' where "s' = pgstrom_close_server_queue
                  (elog LOG ''Stopping PG-Strom OpenCL Server'' []
                    (join_threads k
                      (if k < n
                       then pgstrom_cancel_server_loop
                              ((elog LOG ''failed to create server threads'' [] s8)
                                 \<lparr>pgstrom_clserv_exit_pending := True\<rparr>)
                       else elog LOG ''PG-Strom: %d of server threads are up'' [n] s8)))"
    have main: "pgstrom_opencl_main env devs s = Inr s'"
      using d ct by (simp add: main_unfold n s7_def [symmetric] s'_def)
    have s8: "s8 = s7\<lparr>trace := trace s7 @ map (\<lambda>j. PthreadCreate j 0) [0 .. k - 1] @
                (if k < n then [PthreadCreate k (pthread_create_rc env k)] else [])\<rparr>"
      using sh by blast
    have tr: "trace s' = trace s @ startup_events env devs (opencl_num_threads s) @
                [Malloc (handles_size n)] @ pool_events env n k"
      by (simp add: s'_def s8 s7_def started_def join_threads_eq pgstrom_close_server_queue_def
          elog_def emit_as_update pgstrom_cancel_server_loop_def pool_events_def)
    have fl: "pgstrom_clserv_exit_pending s' = (pgstrom_clserv_exit_pending s \<or> k < n)"
      by (simp add: s'_def s8 s7_def started_def join_threads_eq pgstrom_close_server_queue_def
          elog_def emit_as_update pgstrom_cancel_server_loop_def)
    show thesis
    proof (rule run [of s' k])
      show "init_ok env devs" by (rule d)
      show "assert_checking env \<longrightarrow> 0 < worker_count env s" using d(2) by (simp add: n_def)
      show "malloc_ok env (handles_size (worker_count env s))" using d(3) by (simp add: n_def)
      show "pgstrom_opencl_main env devs s = Inr s'" by (rule main)
      show "0 \<le> k" using sh by simp
      show "k \<le> worker_count env s \<or> k = 0" using sh by (simp add: n_def)
      show "\<forall>j. 0 \<le> j \<and> j < k \<longrightarrow> pthread_create_rc env j = 0" using sh by simp
      show "k < worker_count env s \<longrightarrow> pthread_create_rc env k \<noteq> 0" using sh by (simp add: n_def)
      show "trace s' = trace s @ startup_events env devs (opencl_num_threads s) @
          [Malloc (handles_size (worker_count env s))] @ pool_events env (worker_count env s) k"
        using tr by (simp add: n_def)
      show "pgstrom_clserv_exit_pending s' = (pgstrom_clserv_exit_pending s \<or> k < worker_count env s)"
        using fl by (simp add: n_def)
    qed
  qed
qed

subsection \<open>Facts about traces\<close>
lemma main_events_eq:
  "trace (final (pgstrom_opencl_main env devs s)) = trace s @ evs \<Longrightarrow> main_events env devs s = evs"
  by (simp add: main_events_def)

lemma quiet_startup: "list_all quiet_event (startup_events env devs cfg)"
  by (simp add: startup_events_def quiet_init boot_events_def resolve_events_def)
     (simp add: quiet_event_def)

lemma quiet_boot_init: "list_all quiet_event (boot_events @ init_events env devs)"
  by (simp add: quiet_init boot_events_def) (simp add: quiet_event_def)

lemma quiet_creates: "list_all quiet_event evs \<Longrightarrow> pthread_creates evs = []"
  by (induction evs) (auto simp add: pthread_creates_def quiet_event_def split: event.splits)

lemma quiet_joined: "list_all quiet_event evs \<Longrightarrow> joined evs = []"
  by (induction evs) (auto simp add: joined_def quiet_event_def split: event.splits)

lemma quiet_no_close: "list_all quiet_event evs \<Longrightarrow> CloseServerQueue \<notin> set evs"
  by (induction evs) (auto simp add: quiet_event_def)

lemma quiet_no_cancel: "list_all quiet_event evs \<Longrightarrow> CancelServerLoop \<notin> set evs"
  by (induction evs) (auto simp add: quiet_event_def)

lemma quiet_alive: "list_all quiet_event evs \<Longrightarrow> foldl thread_step A evs = A"
  by (induction evs arbitrary: A) (auto simp add: thread_step_def quiet_event_def split: event.splits)

lemma pthread_creates_append [simp]:
  "pthread_creates (xs @ ys) = pthread_creates xs @ pthread_creates ys"
  by (simp add: pthread_creates_def)

lemma spawned_append [simp]: "spawned (xs @ ys) = spawned xs @ spawned ys"
  by (simp add: spawned_def)

lemma joined_append [simp]: "joined (xs @ ys) = joined xs @ joined ys"
  by (simp add: joined_def)

lemma joined_Nil [simp]: "joined [] = []"
  by (simp add: joined_def)

lemma joined_Cons:
  "joined (e # es) = (case e of PthreadJoin i \<Rightarrow> [i] | _ \<Rightarrow> []) @ joined es"
  by (simp add: joined_def)

lemma spawned_Nil [simp]: "spawned [] = []"
  by (simp add: spawned_def pthread_creates_def)

lemma spawned_Cons:
  "spawned (e # es) =
     (case e of PthreadCreate i rc \<Rightarrow> if rc = 0 then [i] else [] | _ \<Rightarrow> []) @ spawned es"
  by (cases e) (simp_all add: spawned_def pthread_creates_def)

lemma quiet_spawned: "list_all quiet_event evs \<Longrightarrow> spawned evs = []"
  by (simp add: spawned_def quiet_creates)

lemma creates_of_spawns [simp]:
  "pthread_creates (map (\<lambda>j. PthreadCreate j 0) js) = map (\<lambda>j. (j, 0)) js"
  by (induction js) (simp_all add: pthread_creates_def)

lemma spawned_of_spawns [simp]: "spawned (map (\<lambda>j. PthreadCreate j 0) js) = js"
  by (induction js) (simp_all add: spawned_def pthread_creates_def)

lemma joined_of_spawns [simp]: "joined (map (\<lambda>j. PthreadCreate j rc) js) = []"
  by (induction js) (simp_all add: joined_def)

lemma joined_of_joins [simp]: "joined (map PthreadJoin js) = js"
  by (induction js) (simp_all add: joined_def)

lemma creates_of_joins [simp]: "pthread_creates (map PthreadJoin js) = []"
  by (induction js) (simp_all add: pthread_creates_def)

lemma spawned_of_joins [simp]: "spawned (map PthreadJoin js) = []"
  by (simp add: spawned_def)

lemma alive_spawns: "foldl thread_step A (map (\<lambda>j. PthreadCreate j 0) js) = A \<union> set js"
  by (induction js arbitrary: A) (auto simp add: thread_step_def)

lemma alive_joins: "foldl thread_step A (map PthreadJoin js) = A - set js"
  by (induction js arbitrary: A) (auto simp add: thread_step_def)

lemma before_close_snoc:
  "CloseServerQueue \<notin> set xs \<Longrightarrow> before_close (xs @ CloseServerQueue # ys) = xs"
  by (induction xs) (auto simp add: before_close_def)

lemma before_close_none:
  "CloseServerQueue \<notin> set xs \<Longrightarrow> before_close xs = xs"
  by (auto simp add: before_close_def)

lemma quiet_no_create: "list_all quiet_event evs \<Longrightarrow> PthreadCreate i rc \<notin> set evs"
  by (induction evs) (auto simp add: quiet_event_def)

lemma quiet_no_malloc: "list_all quiet_event evs \<Longrightarrow> Malloc sz \<notin> set evs"
  by (induction evs) (auto simp add: quiet_event_def)

lemma pool_no_malloc: "Malloc sz \<notin> set (pool_events env n k)"
  by (auto simp add: pool_events_def)

lemma pool_failed_create:
  "PthreadCreate i rc \<in> set (pool_events env n k) \<Longrightarrow> rc \<noteq> 0 \<Longrightarrow>
     i = k \<and> k < n \<and> rc = pthread_create_rc env k"
  by (auto simp add: pool_events_def split: if_splits)

lemma alive_pool:
  "k < n \<longrightarrow> pthread_create_rc env k \<noteq> 0 \<Longrightarrow> foldl thread_step {} (pool_events env n k) = {}"
  by (simp add: pool_events_def alive_spawns alive_joins) (simp add: thread_step_def)

subsection \<open>Shutdown order, failed start-up and failed allocation\<close>
text \<open>
  Claim C4. Whatever the environment answers, the worker threads that the main routine
  has spawned are joined in the reverse order of their creation, and all of these joins
  come before the call that closes the server queue: just before that call no spawned
  thread is left unjoined. The close is made: whenever the handle array was allocated,
  and so whenever a thread was spawned, the main routine returns, and the call that
  closes the server queue is its last action, made once, after all the joins.
\<close>
theorem shutdown_joins_before_close:
  "joined (before_close (main_events env devs s)) = rev (spawned (main_events env devs s))
   \<and> alive (before_close (main_events env devs s)) = {}
   \<and> (\<forall>sz. Malloc sz \<in> set (main_events env devs s) \<and> malloc_ok env sz \<longrightarrow>
         main_events env devs s = before_close (main_events env devs s) @ [CloseServerQueue]
         \<and> (\<exists>s'. pgstrom_opencl_main env devs s = Inr s'))
   \<and> (spawned (main_events env devs s) \<noteq> [] \<longrightarrow>
         main_events env devs s = before_close (main_events env devs s) @ [CloseServerQueue])"
proof (cases rule: main_cases [of env devs s])
  case (init_fail s')
  have ev: "main_events env devs s = boot_events @ init_events env devs"
    by (rule main_events_eq) (simp add: init_fail)
  note q = quiet_boot_init [of env devs]
  have nm: "\<forall>sz. Malloc sz \<notin> set (boot_events @ init_events env devs)"
    using quiet_no_malloc [OF q] by blast
  show ?thesis
    unfolding ev
    using nm
    by (simp only: before_close_none [OF quiet_no_close [OF q]] quiet_joined [OF q]
          quiet_spawned [OF q] alive_def quiet_alive [OF q]) simp
next
  case (assert_fail s')
  have ev: "main_events env devs s = startup_events env devs (opencl_num_threads s)"
    by (rule main_events_eq) (simp add: assert_fail)
  note q = quiet_startup [of env devs "opencl_num_threads s"]
  have nm: "\<forall>sz. Malloc sz \<notin> set (startup_events env devs (opencl_num_threads s))"
    using quiet_no_malloc [OF q] by blast
  show ?thesis
    unfolding ev
    using nm
    by (simp only: before_close_none [OF quiet_no_close [OF q]] quiet_joined [OF q]
          quiet_spawned [OF q] alive_def quiet_alive [OF q]) simp
next
  case (malloc_fail s')
  note q = quiet_startup [of env devs "opencl_num_threads s"]
  have ev: "main_events env devs s = startup_events env devs (opencl_num_threads s) @
          [Malloc (handles_size (worker_count env s)), Elog LOG ''out of memory'' []]"
    by (rule main_events_eq) (simp add: malloc_fail)
  have nc: "CloseServerQueue \<notin> set (startup_events env devs (opencl_num_threads s) @
          [Malloc (handles_size (worker_count env s)), Elog LOG ''out of memory'' []])"
    using quiet_no_close [OF q] by simp
  have a: "joined (before_close (main_events env devs s)) = rev (spawned (main_events env devs s))"
    unfolding ev before_close_none [OF nc]
    by (simp add: quiet_joined [OF q] quiet_spawned [OF q] joined_Cons spawned_Cons)
  have b: "alive (before_close (main_events env devs s)) = {}"
    unfolding ev before_close_none [OF nc]
    by (simp add: alive_def quiet_alive [OF q] thread_step_def)
  have c: "\<not> (Malloc sz \<in> set (main_events env devs s) \<and> malloc_ok env sz)" for sz
  proof
    assume h: "Malloc sz \<in> set (main_events env devs s) \<and> malloc_ok env sz"
    then have "sz = handles_size (worker_count env s)"
      unfolding ev using quiet_no_malloc [OF q, of sz] by simp
    with h malloc_fail(3) show False by simp
  qed
  have d: "spawned (main_events env devs s) = []"
    unfolding ev by (simp add: quiet_spawned [OF q] spawned_Cons)
  from a b c d show ?thesis by blast
next
  case (run k s')
  note q = quiet_startup [of env devs "opencl_num_threads s"]
  let ?n = "worker_count env s"
  let ?body = "map (\<lambda>j. PthreadCreate j 0) [0 .. k - 1] @
      (if k < ?n
       then [PthreadCreate k (pthread_create_rc env k),
             Elog LOG ''failed to create server threads'' [], CancelServerLoop]
       else [Elog LOG ''PG-Strom: %d of server threads are up'' [?n]]) @
      map PthreadJoin (rev [0 .. k - 1]) @
      [Elog LOG ''Stopping PG-Strom OpenCL Server'' []]"
  let ?pre = "startup_events env devs (opencl_num_threads s) @ [Malloc (handles_size ?n)] @ ?body"
  have ev: "main_events env devs s = ?pre @ CloseServerQueue # []"
    by (rule main_events_eq) (simp add: run pool_events_def)
  have nc: "CloseServerQueue \<notin> set ?pre"
    using quiet_no_close [OF q] by auto
  have bc: "before_close (main_events env devs s) = ?pre"
    unfolding ev by (rule before_close_snoc [OF nc])
  have rc: "k < ?n \<Longrightarrow> pthread_create_rc env k \<noteq> 0" using run by simp
  have j: "joined ?pre = rev [0 .. k - 1]"
    by (simp add: quiet_joined [OF q] joined_Cons)
  have sp: "spawned (main_events env devs s) = [0 .. k - 1]"
    unfolding ev using rc
    by (simp add: quiet_spawned [OF q] spawned_Cons)
  have al: "alive ?pre = {}"
    using rc
    by (simp add: alive_def quiet_alive [OF q] alive_spawns alive_joins)
       (simp add: thread_step_def)
  have last: "main_events env devs s = before_close (main_events env devs s) @ [CloseServerQueue]"
    unfolding bc by (rule ev)
  have ret: "\<exists>s'. pgstrom_opencl_main env devs s = Inr s'"
    using run(4) by blast
  have a: "joined (before_close (main_events env devs s)) = rev (spawned (main_events env devs s))"
    unfolding bc using j sp by simp
  have b: "alive (before_close (main_events env devs s)) = {}"
    unfolding bc by (rule al)
  from a b last ret show ?thesis by (intro conjI allI impI)
qed

text \<open>
  Claim C3. If the main routine's call of \<open>pthread_create\<close> for thread \<open>i\<close> fails,
  then threads \<open>0 .. i - 1\<close> were created before it, the failure is logged, the
  shutdown flag is set, cancellation of the server loop is requested, the threads
  \<open>i - 1\<close> down to \<open>0\<close> are joined, and only then the queue is closed and the routine
  returns; none of the threads it created remains unjoined.
\<close>
theorem partial_startup_failure:
  assumes "PthreadCreate i rc \<in> set (main_events env devs s)" and "rc \<noteq> 0"
  shows "\<exists>s' pre. pgstrom_opencl_main env devs s = Inr s'
           \<and> pgstrom_clserv_exit_pending s'
           \<and> list_all quiet_event pre
           \<and> 0 \<le> i \<and> i < worker_count env s
           \<and> main_events env devs s =
                pre @ [Malloc (handles_size (worker_count env s))] @
                map (\<lambda>j. PthreadCreate j 0) [0 .. i - 1] @
                [PthreadCreate i rc, Elog LOG ''failed to create server threads'' [],
                 CancelServerLoop] @
                map PthreadJoin (rev [0 .. i - 1]) @
                [Elog LOG ''Stopping PG-Strom OpenCL Server'' [], CloseServerQueue]
           \<and> alive (main_events env devs s) = {}"
proof (cases rule: main_cases [of env devs s])
  case (init_fail s')
  have "main_events env devs s = boot_events @ init_events env devs"
    by (rule main_events_eq) (simp add: init_fail)
  with assms(1) quiet_no_create [OF quiet_boot_init [of env devs], of i rc]
  show ?thesis by simp
next
  case (assert_fail s')
  have "main_events env devs s = startup_events env devs (opencl_num_threads s)"
    by (rule main_events_eq) (simp add: assert_fail)
  with assms(1) quiet_no_create [OF quiet_startup [of env devs "opencl_num_threads s"], of i rc]
  show ?thesis by simp
next
  case (malloc_fail s')
  have "main_events env devs s = startup_events env devs (opencl_num_threads s) @
          [Malloc (handles_size (worker_count env s)), Elog LOG ''out of memory'' []]"
    by (rule main_events_eq) (simp add: malloc_fail)
  with assms(1) quiet_no_create [OF quiet_startup [of env devs "opencl_num_threads s"], of i rc]
  show ?thesis by simp
next
  case (run k s')
  note q = quiet_startup [of env devs "opencl_num_threads s"]
  have ev: "main_events env devs s = startup_events env devs (opencl_num_threads s) @
          [Malloc (handles_size (worker_count env s))] @ pool_events env (worker_count env s) k"
    by (rule main_events_eq) (simp add: run)
  from assms(1) have "PthreadCreate i rc \<in> set (pool_events env (worker_count env s) k)"
    unfolding ev using quiet_no_create [OF q, of i rc] by simp
  from pool_failed_create [OF this assms(2)]
  have ik: "i = k" and kn: "k < worker_count env s" and rc: "rc = pthread_create_rc env k"
    by simp_all
  have al: "alive (main_events env devs s) = {}"
    unfolding ev alive_def using run(8)
    by (simp add: quiet_alive [OF q] alive_pool) (simp add: thread_step_def alive_pool)
  have shape: "main_events env devs s =
                startup_events env devs (opencl_num_threads s) @
                [Malloc (handles_size (worker_count env s))] @
                map (\<lambda>j. PthreadCreate j 0) [0 .. i - 1] @
                [PthreadCreate i rc, Elog LOG ''failed to create server threads'' [],
                 CancelServerLoop] @
                map PthreadJoin (rev [0 .. i - 1]) @
                [Elog LOG ''Stopping PG-Strom OpenCL Server'' [], CloseServerQueue]"
    unfolding ev using kn by (simp add: pool_events_def ik rc)
  have fl: "pgstrom_clserv_exit_pending s'" using run(10) kn by simp
  from run(4) fl q run(5) kn shape al show ?thesis
    unfolding ik by blast
qed

text \<open>
  Claim C10. If the \<open>malloc\<close> of the thread handle array fails, the main routine logs
  \<open>out of memory\<close> and returns at once: the log line is its last action, it has
  called neither \<open>pthread_create\<close> nor \<open>pthread_join\<close>, it has not requested
  cancellation, and it has not closed the server queue, so nothing that is queued is
  handed back.
\<close>
theorem allocation_failure_returns:
  assumes "Malloc sz \<in> set (main_events env devs s)" and "\<not> malloc_ok env sz"
  shows "\<exists>s' pre. pgstrom_opencl_main env devs s = Inr s'
           \<and> main_events env devs s = pre @ [Malloc sz, Elog LOG ''out of memory'' []]
           \<and> pthread_creates (main_events env devs s) = []
           \<and> joined (main_events env devs s) = []
           \<and> CancelServerLoop \<notin> set (main_events env devs s)
           \<and> CloseServerQueue \<notin> set (main_events env devs s)
           \<and> pgstrom_clserv_exit_pending s' = pgstrom_clserv_exit_pending s"
proof (cases rule: main_cases [of env devs s])
  case (init_fail s')
  have "main_events env devs s = boot_events @ init_events env devs"
    by (rule main_events_eq) (simp add: init_fail)
  with assms(1) quiet_no_malloc [OF quiet_boot_init [of env devs], of sz]
  show ?thesis by simp
next
  case (assert_fail s')
  have "main_events env devs s = startup_events env devs (opencl_num_threads s)"
    by (rule main_events_eq) (simp add: assert_fail)
  with assms(1) quiet_no_malloc [OF quiet_startup [of env devs "opencl_num_threads s"], of sz]
  show ?thesis by simp
next
  case (malloc_fail s')
  note q = quiet_startup [of env devs "opencl_num_threads s"]
  have ev: "main_events env devs s = startup_events env devs (opencl_num_threads s) @
          [Malloc (handles_size (worker_count env s)), Elog LOG ''out of memory'' []]"
    by (rule main_events_eq) (simp add: malloc_fail)
  from assms(1) have sz: "sz = handles_size (worker_count env s)"
    unfolding ev using quiet_no_malloc [OF q, of sz] by simp
  have a: "pthread_creates (main_events env devs s) = []"
    unfolding ev by (simp add: quiet_creates [OF q]) (simp add: pthread_creates_def)
  have b: "joined (main_events env devs s) = []"
    unfolding ev by (simp add: quiet_joined [OF q] joined_Cons)
  have c: "CancelServerLoop \<notin> set (main_events env devs s)"
    unfolding ev using quiet_no_cancel [OF q] by simp
  have d: "CloseServerQueue \<notin> set (main_events env devs s)"
    unfolding ev using quiet_no_close [OF q] by simp
  from malloc_fail(4) ev a b c d malloc_fail(6) show ?thesis
    unfolding sz by blast
next
  case (run k s')
  note q = quiet_startup [of env devs "opencl_num_threads s"]
  have ev: "main_events env devs s = startup_events env devs (opencl_num_threads s) @
          [Malloc (handles_size (worker_count env s))] @ pool_events env (worker_count env s) k"
    by (rule main_events_eq) (simp add: run)
  from assms(1) have "sz = handles_size (worker_count env s)"
    unfolding ev using quiet_no_malloc [OF q, of sz] pool_no_malloc [of sz env "worker_count env s" k]
    by simp
  with assms(2) run(3) show ?thesis by simp
qed

subsection \<open>Runs in the example environments\<close>
lemmas run_simps =
  pgstrom_opencl_main_def init_opencl_context_and_shmem_def pgstrom_setup_shmem_def
  on_shmem_zone_callback_def create_threads.simps join_threads.simps
  pgstrom_cancel_server_loop_def pgstrom_close_server_queue_def elog_def emit_def
  Let_def CL_SUCCESS_def LONG_MAX_def clserv_boot_def main_events_def

lemma demo_run:
  "main_events demo_env demo_devices (clserv_boot 2) =
     [Pqsignal SIGHUP, Pqsignal SIGTERM, BackgroundWorkerUnblockSignals,
      ClCreateContext 2 0, ClCreateCommandQueue 0 0, ClCreateCommandQueue 1 0,
      Elog LOG ''PG-Strom: setting up shared memory (zone length=%zu)'' [0x20000000],
      PgstromSetupShmem 0x20000000, ClCreateBuffer 4096 2097152 0,
      Elog LOG ''PG-Strom: zone %p-%p was mapped (len: %luMB)'' [4096, 2101247, 2],
      Elog LOG ''Starting PG-Strom OpenCL Server'' [],
      Malloc 16, PthreadCreate 0 0, PthreadCreate 1 0,
      Elog LOG ''PG-Strom: %d of server threads are up'' [2],
      PthreadJoin 1, PthreadJoin 0,
      Elog LOG ''Stopping PG-Strom OpenCL Server'' [], CloseServerQueue]"
  by (simp add: run_simps demo_env_def demo_devices_def)

theorem shutdown_joins_before_close_witness:
  "Malloc 16 \<in> set (main_events demo_env demo_devices (clserv_boot 2))
   \<and> malloc_ok demo_env 16
   \<and> spawned (main_events demo_env demo_devices (clserv_boot 2)) = [0, 1]
   \<and> joined (before_close (main_events demo_env demo_devices (clserv_boot 2))) = [1, 0]
   \<and> alive (before_close (main_events demo_env demo_devices (clserv_boot 2))) = {}
   \<and> main_events demo_env demo_devices (clserv_boot 2) =
       before_close (main_events demo_env demo_devices (clserv_boot 2)) @ [CloseServerQueue]
   \<and> last (before_close (main_events demo_env demo_devices (clserv_boot 2))) =
       Elog LOG ''Stopping PG-Strom OpenCL Server'' []"
proof -
  have m: "Malloc 16 \<in> set (main_events demo_env demo_devices (clserv_boot 2))"
    by (simp add: demo_run)
  have ok: "malloc_ok demo_env 16"
    by (simp add: demo_env_def)
  have sp: "spawned (main_events demo_env demo_devices (clserv_boot 2)) = [0, 1]"
    by (simp add: demo_run spawned_Cons)
  have bl: "last (before_close (main_events demo_env demo_devices (clserv_boot 2))) =
       Elog LOG ''Stopping PG-Strom OpenCL Server'' []"
    by (simp add: demo_run before_close_def)
  note t = shutdown_joins_before_close [of demo_env demo_devices "clserv_boot 2"]
  from t have j: "joined (before_close (main_events demo_env demo_devices (clserv_boot 2))) =
      rev (spawned (main_events demo_env demo_devices (clserv_boot 2)))"
    by (elim conjE)
  from t have a: "alive (before_close (main_events demo_env demo_devices (clserv_boot 2))) = {}"
    by (elim conjE)
  from t have "\<forall>sz. Malloc sz \<in> set (main_events demo_env demo_devices (clserv_boot 2))
        \<and> malloc_ok demo_env sz \<longrightarrow>
         main_events demo_env demo_devices (clserv_boot 2) =
           before_close (main_events demo_env demo_devices (clserv_boot 2)) @ [CloseServerQueue]
         \<and> (\<exists>s'. pgstrom_opencl_main demo_env demo_devices (clserv_boot 2) = Inr s')"
    by (elim conjE)
  with m ok have c: "main_events demo_env demo_devices (clserv_boot 2) =
       before_close (main_events demo_env demo_devices (clserv_boot 2)) @ [CloseServerQueue]"
    by (elim allE [of _ 16]) (elim impE, intro conjI, assumption+, elim conjE, assumption)
  have j': "joined (before_close (main_events demo_env demo_devices (clserv_boot 2))) = [1, 0]"
    unfolding j sp by simp
  from m ok sp j' a c bl show ?thesis by (intro conjI)
qed

lemma failing_run:
  "main_events failing_env demo_devices (clserv_boot 3) =
     [Pqsignal SIGHUP, Pqsignal SIGTERM, BackgroundWorkerUnblockSignals,
      ClCreateContext 2 0, ClCreateCommandQueue 0 0, ClCreateCommandQueue 1 0,
      Elog LOG ''PG-Strom: setting up shared memory (zone length=%zu)'' [0x20000000],
      PgstromSetupShmem 0x20000000, ClCreateBuffer 4096 2097152 0,
      Elog LOG ''PG-Strom: zone %p-%p was mapped (len: %luMB)'' [4096, 2101247, 2],
      Elog LOG ''Starting PG-Strom OpenCL Server'' [],
      Malloc 24, PthreadCreate 0 0, PthreadCreate 1 0, PthreadCreate 2 11,
      Elog LOG ''failed to create server threads'' [], CancelServerLoop,
      PthreadJoin 1, PthreadJoin 0,
      Elog LOG ''Stopping PG-Strom OpenCL Server'' [], CloseServerQueue]"
  by (simp add: run_simps failing_env_def demo_env_def demo_devices_def)

theorem partial_startup_failure_witness:
  "PthreadCreate 2 11 \<in> set (main_events failing_env demo_devices (clserv_boot 3))
   \<and> (11 :: int) \<noteq> 0
   \<and> (\<exists>s'. pgstrom_opencl_main failing_env demo_devices (clserv_boot 3) = Inr s'
          \<and> pgstrom_clserv_exit_pending s')
   \<and> alive (main_events failing_env demo_devices (clserv_boot 3)) = {}"
proof -
  have h: "PthreadCreate 2 11 \<in> set (main_events failing_env demo_devices (clserv_boot 3))"
    by (simp add: failing_run)
  have nz: "(11 :: int) \<noteq> 0" by simp
  note t = partial_startup_failure [OF h nz]
  have c1: "\<exists>s'. pgstrom_opencl_main failing_env demo_devices (clserv_boot 3) = Inr s'
          \<and> pgstrom_clserv_exit_pending s'"
    using t by (elim exE conjE) (intro exI conjI, assumption+)
  have c2: "alive (main_events failing_env demo_devices (clserv_boot 3)) = {}"
    using t by (elim exE conjE)
  from h nz c1 c2 show ?thesis by (intro conjI)
qed

lemma oom_run:
  "main_events oom_env demo_devices (clserv_boot 2) =
     [Pqsignal SIGHUP, Pqsignal SIGTERM, BackgroundWorkerUnblockSignals,
      ClCreateContext 2 0, ClCreateCommandQueue 0 0, ClCreateCommandQueue 1 0,
      Elog LOG ''PG-Strom: setting up shared memory (zone length=%zu)'' [0x20000000],
      PgstromSetupShmem 0x20000000, ClCreateBuffer 4096 2097152 0,
      Elog LOG ''PG-Strom: zone %p-%p was mapped (len: %luMB)'' [4096, 2101247, 2],
      Elog LOG ''Starting PG-Strom OpenCL Server'' [],
      Malloc 16, Elog LOG ''out of memory'' []]"
  by (simp add: run_simps oom_env_def demo_env_def demo_devices_def)

theorem allocation_failure_returns_witness:
  "Malloc 16 \<in> set (main_events oom_env demo_devices (clserv_boot 2))
   \<and> \<not> malloc_ok oom_env 16
   \<and> (\<exists>s'. pgstrom_opencl_main oom_env demo_devices (clserv_boot 2) = Inr s')
   \<and> pthread_creates (main_events oom_env demo_devices (clserv_boot 2)) = []
   \<and> CloseServerQueue \<notin> set (main_events oom_env demo_devices (clserv_boot 2))"
proof -
  have h: "Malloc 16 \<in> set (main_events oom_env demo_devices (clserv_boot 2))"
    by (simp add: oom_run)
  have f: "\<not> malloc_ok oom_env 16"
    by (simp add: oom_env_def)
  note t = allocation_failure_returns [OF h f]
  have c1: "\<exists>s'. pgstrom_opencl_main oom_env demo_devices (clserv_boot 2) = Inr s'"
    using t by (elim exE conjE) (intro exI, assumption)
  have c2: "pthread_creates (main_events oom_env demo_devices (clserv_boot 2)) = []"
    using t by (elim exE conjE)
  have c3: "CloseServerQueue \<notin> set (main_events oom_env demo_devices (clserv_boot 2))"
    using t by (elim exE conjE)
  from h f c1 c2 c3 show ?thesis by (intro conjI)
qed

subsection \<open>Command queues\<close>
lemma command_queues_append [simp]:
  "command_queues (xs @ ys) = command_queues xs @ command_queues ys"
  by (simp add: command_queues_def)

lemma command_queues_Nil [simp]: "command_queues [] = []"
  by (simp add: command_queues_def)

lemma command_queues_Cons:
  "command_queues (e # es) =
     (case e of ClCreateCommandQueue i rc \<Rightarrow> if rc = CL_SUCCESS then [i] else [] | _ \<Rightarrow> []) @
     command_queues es"
  by (simp add: command_queues_def)

lemma command_queues_zones [simp]: "command_queues (zones_events zs) = []"
  by (induction zs rule: zones_events.induct) (simp_all add: command_queues_Cons)

lemma command_queues_ok [simp]:
  "command_queues (map (\<lambda>j. ClCreateCommandQueue j CL_SUCCESS) js) = js"
  by (induction js) (simp_all add: command_queues_Cons)

lemma command_queues_pool [simp]: "command_queues (pool_events env n k) = []"
proof -
  have a: "command_queues (map (\<lambda>j. PthreadCreate j 0) js) = []" for js
    by (induction js) (simp_all add: command_queues_Cons)
  have b: "command_queues (map PthreadJoin js) = []" for js
    by (induction js) (simp_all add: command_queues_Cons)
  show ?thesis
    by (simp add: pool_events_def a b command_queues_Cons)
qed

lemma command_queues_startup:
  "init_ok env devs \<Longrightarrow> command_queues (startup_events env devs cfg) = [0 ..< length devs]"
proof -
  assume ok: "init_ok env devs"
  then have "\<forall>j < length devs. clCreateCommandQueue_rc env (0 + j) = CL_SUCCESS"
    by (simp add: init_ok_def cmdqs_ok_def)
  from cmdq_events_ok [OF this] ok show ?thesis
    by (simp add: startup_events_def boot_events_def init_events_def resolve_events_def
          init_ok_def command_queues_Cons)
qed

lemma before_spawn_stop:
  "\<forall>e \<in> set xs. \<not> is_pthread_create e \<Longrightarrow> before_spawn (xs @ PthreadCreate i r # ys) = xs"
  by (induction xs) (auto simp add: before_spawn_def is_pthread_create_def)

lemma quiet_not_create: "list_all quiet_event evs \<Longrightarrow> \<forall>e \<in> set evs. \<not> is_pthread_create e"
  by (induction evs) (auto simp add: quiet_event_def is_pthread_create_def split: event.splits)

lemma pool_head:
  assumes "pthread_creates (pool_events env n k) \<noteq> []" and "0 \<le> k"
  shows "\<exists>r rest. pool_events env n k = PthreadCreate 0 r # rest"
proof (cases "k = 0")
  case True
  with assms(1) have "k < n"
    by (auto simp add: pool_events_def pthread_creates_def split: if_splits)
  with True show ?thesis by (simp add: pool_events_def)
next
  case False
  with assms(2) have "[0 .. k - 1] = 0 # [1 .. k - 1]"
    by (simp add: upto_rec1)
  then show ?thesis by (simp add: pool_events_def)
qed

lemma cmdq_events_failed:
  "\<exists>j < length devs. clCreateCommandQueue_rc env (i + j) \<noteq> CL_SUCCESS \<Longrightarrow>
     \<exists>rc. rc \<noteq> CL_SUCCESS \<and> cmdq_events env i devs \<noteq> [] \<and>
       last (cmdq_events env i devs) = Elog ERROR ''clCreateCommandQueue failed: %s'' [rc]"
proof (induction devs arbitrary: i)
  case Nil
  then show ?case by simp
next
  case (Cons d ds)
  show ?case
  proof (cases "clCreateCommandQueue_rc env i = CL_SUCCESS")
    case False
    then show ?thesis by simp
  next
    case True
    from Cons.prems obtain j where j: "j < length (d # ds)"
      "clCreateCommandQueue_rc env (i + j) \<noteq> CL_SUCCESS" by blast
    with True have "j \<noteq> 0" by (cases j) auto
    then obtain j' where "j = Suc j'" by (cases j) auto
    with j have "\<exists>j < length ds. clCreateCommandQueue_rc env (Suc i + j) \<noteq> CL_SUCCESS"
      by auto
    from Cons.IH [OF this] True show ?thesis by auto
  qed
qed

lemma init_events_failed:
  assumes "j < length devs" and "clCreateCommandQueue_rc env j \<noteq> CL_SUCCESS"
  shows "(\<exists>rc. rc \<noteq> CL_SUCCESS \<and>
            last (boot_events @ init_events env devs) = Elog ERROR ''clCreateContext failed: %s'' [rc])
       \<or> (\<exists>rc. rc \<noteq> CL_SUCCESS \<and>
            last (boot_events @ init_events env devs) = Elog ERROR ''clCreateCommandQueue failed: %s'' [rc])"
proof (cases "clCreateContext_rc env = CL_SUCCESS")
  case False
  then show ?thesis by (simp add: init_events_def)
next
  case True
  from assms have "\<exists>j < length devs. clCreateCommandQueue_rc env (0 + j) \<noteq> CL_SUCCESS"
    by auto
  from cmdq_events_failed [OF this] obtain rc where
    "rc \<noteq> CL_SUCCESS" "cmdq_events env 0 devs \<noteq> []"
    "last (cmdq_events env 0 devs) = Elog ERROR ''clCreateCommandQueue failed: %s'' [rc]"
    by blast
  moreover from assms have "\<not> cmdqs_ok env (length devs)"
    by (auto simp add: cmdqs_ok_def)
  ultimately show ?thesis using True
    by (simp add: init_events_def)
qed

text \<open>
  Claim C6. When the main routine calls \<open>pthread_create\<close> at all, the command queues
  created before the first such call are those of the devices 0, 1, ..., one each and
  in this order, and no other is created later. When the creation of the command queue
  of some device fails, the main routine ends in \<open>elog(ERROR)\<close>: it does not return,
  its last action is the error report of the context or of the command queue, and it
  has made no call of \<open>pthread_create\<close>.
\<close>
theorem command_queues_before_workers:
  "(pthread_creates (main_events env devs s) \<noteq> [] \<longrightarrow>
      command_queues (before_spawn (main_events env devs s)) = [0 ..< length devs]
      \<and> command_queues (main_events env devs s) = [0 ..< length devs])
   \<and> (\<forall>j < length devs. clCreateCommandQueue_rc env j \<noteq> CL_SUCCESS \<longrightarrow>
        (\<exists>s'. pgstrom_opencl_main env devs s = Inl (ErrorExit, s'))
        \<and> pthread_creates (main_events env devs s) = []
        \<and> ((\<exists>rc. rc \<noteq> CL_SUCCESS \<and>
               last (main_events env devs s) = Elog ERROR ''clCreateContext failed: %s'' [rc])
           \<or> (\<exists>rc. rc \<noteq> CL_SUCCESS \<and>
               last (main_events env devs s) =
                 Elog ERROR ''clCreateCommandQueue failed: %s'' [rc])))"
proof (cases rule: main_cases [of env devs s])
  case (init_fail s')
  have ev: "main_events env devs s = boot_events @ init_events env devs"
    by (rule main_events_eq) (simp add: init_fail)
  have nc: "pthread_creates (main_events env devs s) = []"
    unfolding ev by (rule quiet_creates [OF quiet_boot_init])
  show ?thesis
    using nc init_fail(2) init_events_failed [of _ devs env]
    unfolding ev by auto
next
  case (assert_fail s')
  have ev: "main_events env devs s = startup_events env devs (opencl_num_threads s)"
    by (rule main_events_eq) (simp add: assert_fail)
  have nc: "pthread_creates (main_events env devs s) = []"
    unfolding ev by (rule quiet_creates [OF quiet_startup])
  from assert_fail(1) have "\<forall>j < length devs. clCreateCommandQueue_rc env j = CL_SUCCESS"
    by (simp add: init_ok_def cmdqs_ok_def)
  with nc show ?thesis by simp
next
  case (malloc_fail s')
  note q = quiet_startup [of env devs "opencl_num_threads s"]
  have ev: "main_events env devs s = startup_events env devs (opencl_num_threads s) @
          [Malloc (handles_size (worker_count env s)), Elog LOG ''out of memory'' []]"
    by (rule main_events_eq) (simp add: malloc_fail)
  have nc: "pthread_creates (main_events env devs s) = []"
    unfolding ev by (simp add: quiet_creates [OF q]) (simp add: pthread_creates_def)
  from malloc_fail(1) have "\<forall>j < length devs. clCreateCommandQueue_rc env j = CL_SUCCESS"
    by (simp add: init_ok_def cmdqs_ok_def)
  with nc show ?thesis by simp
next
  case (run k s')
  note q = quiet_startup [of env devs "opencl_num_threads s"]
  let ?pre = "startup_events env devs (opencl_num_threads s) @
          [Malloc (handles_size (worker_count env s))]"
  have ev: "main_events env devs s = ?pre @ pool_events env (worker_count env s) k"
    by (rule main_events_eq) (simp add: run)
  have ok: "\<forall>j < length devs. clCreateCommandQueue_rc env j = CL_SUCCESS"
    using run(1) by (simp add: init_ok_def cmdqs_ok_def)
  have all: "command_queues (main_events env devs s) = [0 ..< length devs]"
    unfolding ev by (simp add: command_queues_startup [OF run(1)] command_queues_Cons)
  have pre: "command_queues ?pre = [0 ..< length devs]"
    by (simp add: command_queues_startup [OF run(1)] command_queues_Cons)
  have first: "command_queues (before_spawn (main_events env devs s)) = [0 ..< length devs]"
    if "pthread_creates (main_events env devs s) \<noteq> []"
  proof -
    from that have "pthread_creates (pool_events env (worker_count env s) k) \<noteq> []"
      unfolding ev by (simp add: quiet_creates [OF q]) (simp add: pthread_creates_def)
    from pool_head [OF this run(5)] obtain r rest where
      p: "pool_events env (worker_count env s) k = PthreadCreate 0 r # rest" by blast
    have "\<forall>e \<in> set ?pre. \<not> is_pthread_create e"
      using quiet_not_create [OF q] by (simp add: is_pthread_create_def)
    from before_spawn_stop [OF this] have "before_spawn (main_events env devs s) = ?pre"
      unfolding ev p .
    with pre show ?thesis by simp
  qed
  from all first ok show ?thesis by simp
qed

theorem command_queues_before_workers_witness:
  "pthread_creates (main_events demo_env demo_devices (clserv_boot 2)) \<noteq> []
   \<and> command_queues (before_spawn (main_events demo_env demo_devices (clserv_boot 2))) = [0, 1]
   \<and> (1 :: nat) < length demo_devices
   \<and> clCreateCommandQueue_rc broken_env 1 \<noteq> CL_SUCCESS
   \<and> (\<exists>s'. pgstrom_opencl_main broken_env demo_devices (clserv_boot 2) = Inl (ErrorExit, s'))
   \<and> pthread_creates (main_events broken_env demo_devices (clserv_boot 2)) = []"
proof -
  have a: "pthread_creates (main_events demo_env demo_devices (clserv_boot 2)) \<noteq> []"
    by (simp add: demo_run pthread_creates_def)
  have b: "(1 :: nat) < length demo_devices"
    by (simp add: demo_devices_def)
  have c: "clCreateCommandQueue_rc broken_env 1 \<noteq> CL_SUCCESS"
    by (simp add: broken_env_def CL_SUCCESS_def)
  have len: "[0 ..< length demo_devices] = [0, 1]"
    by (simp add: demo_devices_def upt_rec)
  note t1 = command_queues_before_workers [of demo_env demo_devices "clserv_boot 2"]
  note t2 = command_queues_before_workers [of broken_env demo_devices "clserv_boot 2"]
  have d: "command_queues (before_spawn (main_events demo_env demo_devices (clserv_boot 2))) = [0, 1]"
    using t1 a len by simp
  from t2 b c
  have e: "(\<exists>s'. pgstrom_opencl_main broken_env demo_devices (clserv_boot 2) = Inl (ErrorExit, s'))
        \<and> pthread_creates (main_events broken_env demo_devices (clserv_boot 2)) = []"
    by blast
  from a b c d e show ?thesis by (intro conjI) (elim conjE, assumption)+
qed

subsection \<open>Zone length\<close>
lemma setup_zone_lengths_append [simp]:
  "setup_zone_lengths (xs @ ys) = setup_zone_lengths xs @ setup_zone_lengths ys"
  by (simp add: setup_zone_lengths_def)

lemma setup_zone_lengths_Nil [simp]: "setup_zone_lengths [] = []"
  by (simp add: setup_zone_lengths_def)

lemma setup_zone_lengths_Cons:
  "setup_zone_lengths (e # es) =
     (case e of PgstromSetupShmem z \<Rightarrow> [z] | _ \<Rightarrow> []) @ setup_zone_lengths es"
  by (simp add: setup_zone_lengths_def)

lemma setup_zone_lengths_zones [simp]: "setup_zone_lengths (zones_events zs) = []"
  by (induction zs rule: zones_events.induct) (simp_all add: setup_zone_lengths_Cons)

lemma setup_zone_lengths_cmdq [simp]: "setup_zone_lengths (cmdq_events env i devs) = []"
  by (induction env i devs rule: cmdq_events.induct) (simp_all add: setup_zone_lengths_Cons)

lemma setup_zone_lengths_init:
  "setup_zone_lengths (init_events env devs) =
     (if clCreateContext_rc env = CL_SUCCESS \<and> cmdqs_ok env (length devs)
      then [zone_length_of devs] else [])"
  by (simp add: init_events_def setup_zone_lengths_Cons)

lemma init_trace_eq: "init_trace env devs s = init_events env devs"
  by (simp add: init_trace_def init_eq)

text \<open>
  Claim C8. Every zone length that \<open>init_opencl_context_and_shmem\<close> hands to
  \<open>pgstrom_setup_shmem\<close> is the minimum of \<open>LONG_MAX\<close> and of the maximum allocation
  sizes of all devices: it is \<open>LONG_MAX\<close> for an empty device list and at most the
  maximum allocation size of each device otherwise. The call is made, once, when the
  context and all command queues were created.
\<close>
theorem zone_length_is_minimum:
  "(\<forall>z \<in> set (setup_zone_lengths (init_trace env devs s)).
       z = Min (insert LONG_MAX (dev_max_mem_alloc_size ` set devs))
       \<and> (devs = [] \<longrightarrow> z = LONG_MAX)
       \<and> (\<forall>d \<in> set devs. z \<le> dev_max_mem_alloc_size d))
   \<and> (clCreateContext_rc env = CL_SUCCESS
        \<and> (\<forall>j < length devs. clCreateCommandQueue_rc env j = CL_SUCCESS) \<longrightarrow>
      setup_zone_lengths (init_trace env devs s) =
        [Min (insert LONG_MAX (dev_max_mem_alloc_size ` set devs))])"
proof -
  have le: "\<forall>d \<in> set devs. zone_length_of devs \<le> dev_max_mem_alloc_size d"
    by (simp add: zone_length_of_def)
  have emp: "devs = [] \<longrightarrow> zone_length_of devs = LONG_MAX"
    by (simp add: zone_length_of_def)
  show ?thesis
    unfolding init_trace_eq setup_zone_lengths_init
    using le emp by (simp add: cmdqs_ok_def) (simp add: zone_length_of_def)
qed

theorem zone_length_is_minimum_witness:
  "0x20000000 \<in> set (setup_zone_lengths (init_trace demo_env demo_devices (clserv_boot 2)))
   \<and> (0x20000000 :: 64 word) = Min (insert LONG_MAX (dev_max_mem_alloc_size ` set demo_devices))
   \<and> \<lparr>dev_max_mem_alloc_size = 0x40000000\<rparr> \<in> set demo_devices
   \<and> (0x20000000 :: 64 word) \<le> dev_max_mem_alloc_size \<lparr>dev_max_mem_alloc_size = 0x40000000\<rparr>
   \<and> clCreateContext_rc demo_env = CL_SUCCESS
   \<and> clCreateCommandQueue_rc demo_env 0 = CL_SUCCESS
   \<and> clCreateCommandQueue_rc demo_env 1 = CL_SUCCESS
   \<and> setup_zone_lengths (init_trace demo_env demo_devices (clserv_boot 2)) = [0x20000000]"
proof -
  have tr: "setup_zone_lengths (init_trace demo_env demo_devices (clserv_boot 2)) = [0x20000000]"
    by (simp add: init_trace_def setup_zone_lengths_def run_simps demo_env_def demo_devices_def)
  have a: "clCreateContext_rc demo_env = CL_SUCCESS"
    "clCreateCommandQueue_rc demo_env 0 = CL_SUCCESS"
    "clCreateCommandQueue_rc demo_env 1 = CL_SUCCESS"
    by (simp_all add: demo_env_def CL_SUCCESS_def)
  have m: "\<lparr>dev_max_mem_alloc_size = 0x40000000\<rparr> \<in> set demo_devices"
    by (simp add: demo_devices_def)
  note t = zone_length_is_minimum [of demo_env demo_devices "clserv_boot 2", unfolded tr]
  from t have c: "(0x20000000 :: 64 word) = Min (insert LONG_MAX (dev_max_mem_alloc_size ` set demo_devices))"
    by simp
  from t m have d: "(0x20000000 :: 64 word) \<le> dev_max_mem_alloc_size \<lparr>dev_max_mem_alloc_size = 0x40000000\<rparr>"
    by simp
  from tr a c d m show ?thesis by simp
qed

subsection \<open>Worker count\<close>
text \<open>
  With assertion checking compiled in, a resolved thread count that is not positive
  stops the main routine at the \<open>Assert\<close>.
\<close>
lemma assert_build_rejects_count:
  assumes "init_ok env devs" and "assert_checking env" and "\<not> 0 < worker_count env s"
  shows "\<exists>s'. pgstrom_opencl_main env devs s = Inl (AssertFailure, s')"
  using assms by (cases rule: main_cases [of env devs s]) simp_all

text \<open>
  The resolved thread count is the configured value when that is not zero, and the low
  32 bits of the \<open>sysconf\<close> answer otherwise.
\<close>
lemma resolved_count:
  "worker_count env s =
     (if opencl_num_threads s \<noteq> 0 then sint (opencl_num_threads s)
      else sint (ucast (sysconf_nprocessors_onln env) :: 32 word))"
  by (simp add: worker_count_def resolved_threads_def)

text \<open>
  Claim C5. In a build without assertion checking the count is not validated. When
  \<open>sysconf\<close> answers -1 the count is -1: the routine asks \<open>malloc\<close> for
  \<open>(size_t) -8\<close> bytes, logs \<open>out of memory\<close> and returns. When it answers 0 and
  \<open>malloc(0)\<close> gives a pointer, the routine reports 0 threads up, joins nothing,
  closes the queue and returns. Neither run reports an invalid worker count.
\<close>
theorem worker_count_unchecked:
  "main_events no_cpu_env demo_devices (clserv_boot 0) =
     [Pqsignal SIGHUP, Pqsignal SIGTERM, BackgroundWorkerUnblockSignals,
      ClCreateContext 2 0, ClCreateCommandQueue 0 0, ClCreateCommandQueue 1 0,
      Elog LOG ''PG-Strom: setting up shared memory (zone length=%zu)'' [0x20000000],
      PgstromSetupShmem 0x20000000, ClCreateBuffer 4096 2097152 0,
      Elog LOG ''PG-Strom: zone %p-%p was mapped (len: %luMB)'' [4096, 2101247, 2],
      Elog LOG ''Starting PG-Strom OpenCL Server'' [], Sysconf,
      Malloc 0xFFFFFFFFFFFFFFF8, Elog LOG ''out of memory'' []]
   \<and> worker_count no_cpu_env (clserv_boot 0) = - 1
   \<and> isl (pgstrom_opencl_main no_cpu_env demo_devices (clserv_boot 0)) = False
   \<and> main_events zero_cpu_env demo_devices (clserv_boot 0) =
     [Pqsignal SIGHUP, Pqsignal SIGTERM, BackgroundWorkerUnblockSignals,
      ClCreateContext 2 0, ClCreateCommandQueue 0 0, ClCreateCommandQueue 1 0,
      Elog LOG ''PG-Strom: setting up shared memory (zone length=%zu)'' [0x20000000],
      PgstromSetupShmem 0x20000000, ClCreateBuffer 4096 2097152 0,
      Elog LOG ''PG-Strom: zone %p-%p was mapped (len: %luMB)'' [4096, 2101247, 2],
      Elog LOG ''Starting PG-Strom OpenCL Server'' [], Sysconf,
      Malloc 0, Elog LOG ''PG-Strom: %d of server threads are up'' [0],
      Elog LOG ''Stopping PG-Strom OpenCL Server'' [], CloseServerQueue]
   \<and> worker_count zero_cpu_env (clserv_boot 0) = 0
   \<and> isl (pgstrom_opencl_main zero_cpu_env demo_devices (clserv_boot 0)) = False"
proof -
  have a: "main_events no_cpu_env demo_devices (clserv_boot 0) =
     [Pqsignal SIGHUP, Pqsignal SIGTERM, BackgroundWorkerUnblockSignals,
      ClCreateContext 2 0, ClCreateCommandQueue 0 0, ClCreateCommandQueue 1 0,
      Elog LOG ''PG-Strom: setting up shared memory (zone length=%zu)'' [0x20000000],
      PgstromSetupShmem 0x20000000, ClCreateBuffer 4096 2097152 0,
      Elog LOG ''PG-Strom: zone %p-%p was mapped (len: %luMB)'' [4096, 2101247, 2],
      Elog LOG ''Starting PG-Strom OpenCL Server'' [], Sysconf,
      Malloc 0xFFFFFFFFFFFFFFF8, Elog LOG ''out of memory'' []]"
    by (simp add: run_simps no_cpu_env_def demo_env_def demo_devices_def)
  have b: "worker_count no_cpu_env (clserv_boot 0) = - 1"
    by (simp add: worker_count_def resolved_threads_def no_cpu_env_def demo_env_def clserv_boot_def)
  have c: "isl (pgstrom_opencl_main no_cpu_env demo_devices (clserv_boot 0)) = False"
    by (simp add: run_simps no_cpu_env_def demo_env_def demo_devices_def)
  have d: "main_events zero_cpu_env demo_devices (clserv_boot 0) =
     [Pqsignal SIGHUP, Pqsignal SIGTERM, BackgroundWorkerUnblockSignals,
      ClCreateContext 2 0, ClCreateCommandQueue 0 0, ClCreateCommandQueue 1 0,
      Elog LOG ''PG-Strom: setting up shared memory (zone length=%zu)'' [0x20000000],
      PgstromSetupShmem 0x20000000, ClCreateBuffer 4096 2097152 0,
      Elog LOG ''PG-Strom: zone %p-%p was mapped (len: %luMB)'' [4096, 2101247, 2],
      Elog LOG ''Starting PG-Strom OpenCL Server'' [], Sysconf,
      Malloc 0, Elog LOG ''PG-Strom: %d of server threads are up'' [0],
      Elog LOG ''Stopping PG-Strom OpenCL Server'' [], CloseServerQueue]"
    by (simp add: run_simps zero_cpu_env_def demo_env_def demo_devices_def)
  have e: "worker_count zero_cpu_env (clserv_boot 0) = 0"
    by (simp add: worker_count_def resolved_threads_def zero_cpu_env_def demo_env_def clserv_boot_def)
  have f: "isl (pgstrom_opencl_main zero_cpu_env demo_devices (clserv_boot 0)) = False"
    by (simp add: run_simps zero_cpu_env_def demo_env_def demo_devices_def)
  from a b c d e f show ?thesis by (intro conjI)
qed

section \<open>Signals and the shutdown flag\<close>
lemma main_flag_mono:
  "pgstrom_clserv_exit_pending s \<Longrightarrow>
     pgstrom_clserv_exit_pending (final (pgstrom_opencl_main env devs s))"
  by (cases rule: main_cases [of env devs s]) simp_all

lemma deliver_sets_flag: "pgstrom_clserv_exit_pending (deliver sg s)"
  by (cases sg)
     (simp_all add: pgstrom_opencl_sigterm_def pgstrom_opencl_sighup_def clserv_log_def
        pgstrom_cancel_server_loop_def)

lemma perform_mono:
  "pgstrom_clserv_exit_pending s \<Longrightarrow> pgstrom_clserv_exit_pending (perform a s)"
  by (cases a) (simp_all add: deliver_sets_flag main_flag_mono)

lemma flag_history_Cons:
  "flag_history s (a # as) = pgstrom_clserv_exit_pending s # flag_history (perform a s) as"
  by (simp add: flag_history_def)

lemma flag_history_hd:
  "\<exists>bs. flag_history s as = pgstrom_clserv_exit_pending s # bs"
  by (cases as) (simp_all add: flag_history_def)

lemma flag_history_set:
  "pgstrom_clserv_exit_pending s \<Longrightarrow> flag_history s as = replicate (Suc (length as)) True"
  by (induction as arbitrary: s) (simp_all add: flag_history_def perform_mono)

lemma transitions_Cons2:
  "transitions (x # y # ys) = (if x \<noteq> y then 1 else 0) + transitions (y # ys)"
  by (simp add: transitions_def)

lemma transitions_True: "transitions (replicate n True) = 0"
proof (induction n)
  case 0
  show ?case by (simp add: transitions_def)
next
  case (Suc n)
  then show ?case
    by (cases n) (simp_all add: transitions_def)
qed

lemma sorted_True: "sorted (replicate n True)"
  by (rule sorted_replicate)

lemma flag_history_monotone:
  "sorted (flag_history s as) \<and> transitions (flag_history s as) \<le> 1"
proof (induction as arbitrary: s)
  case Nil
  show ?case by (simp add: flag_history_def transitions_def)
next
  case (Cons a as)
  obtain bs where bs: "flag_history (perform a s) as = pgstrom_clserv_exit_pending (perform a s) # bs"
    using flag_history_hd by blast
  show ?case
  proof (cases "pgstrom_clserv_exit_pending s")
    case True
    show ?thesis
      unfolding flag_history_set [OF True]
      by (simp only: sorted_True transitions_True) simp
  next
    case False
    show ?thesis
    proof (cases "pgstrom_clserv_exit_pending (perform a s)")
      case True
      have eq: "flag_history s (a # as) = False # replicate (Suc (length as)) True"
        using False flag_history_set [OF True, of as] by (simp add: flag_history_Cons)
      have tr: "transitions (False # replicate (Suc (length as)) True) = 1"
        using transitions_True [of "Suc (length as)"] by (simp add: transitions_Cons2)
      have so: "sorted (False # replicate (Suc (length as)) True)"
      proof -
        have "sorted (replicate (Suc (length as)) True)" by (rule sorted_True)
        moreover have "\<forall>y \<in> set (replicate (Suc (length as)) True). False \<le> y" by simp
        ultimately show ?thesis unfolding sorted_simps(2) by blast
      qed
      show ?thesis unfolding eq tr by (rule conjI [OF so]) simp
    next
      case nf: False
      have h: "flag_history s (a # as) = False # False # bs"
        using False nf bs by (simp add: flag_history_Cons)
      have r: "flag_history (perform a s) as = False # bs"
        using nf bs by simp
      from Cons.IH [of "perform a s"] show ?thesis
        unfolding h r by (simp add: transitions_Cons2)
    qed
  qed
qed

text \<open>
  Claim C7. The handlers of the termination and of the reload signal both set the
  shutdown flag and both call \<open>pgstrom_cancel_server_loop\<close> once; the states they
  produce differ only in the text of the log line. Over any sequence of signal
  deliveries and runs of the main routine, from any state, the history of the flag is
  monotone (once true it stays true) and changes at most once; the flag starts false.
\<close>
theorem signals_set_flag_once:
  "pgstrom_clserv_exit_pending (deliver sg s)
   \<and> cancel_requests (trace (deliver sg s)) = Suc (cancel_requests (trace s))
   \<and> pgstrom_opencl_sigterm s =
       (pgstrom_opencl_sighup s)
         \<lparr>trace := butlast (trace (pgstrom_opencl_sighup s)) @ [ClservLog ''Got SIGTERM'']\<rparr>
   \<and> last (trace (pgstrom_opencl_sighup s)) = ClservLog ''Got SIGHUP''
   \<and> sorted (flag_history s as)
   \<and> transitions (flag_history s as) \<le> 1
   \<and> hd (flag_history (clserv_boot cfg) as) = False"
proof -
  have a: "pgstrom_clserv_exit_pending (deliver sg s)"
    by (rule deliver_sets_flag)
  have b: "cancel_requests (trace (deliver sg s)) = Suc (cancel_requests (trace s))"
    by (cases sg)
       (simp_all add: pgstrom_opencl_sigterm_def pgstrom_opencl_sighup_def clserv_log_def
          pgstrom_cancel_server_loop_def cancel_requests_def)
  have c: "pgstrom_opencl_sigterm s =
       (pgstrom_opencl_sighup s)
         \<lparr>trace := butlast (trace (pgstrom_opencl_sighup s)) @ [ClservLog ''Got SIGTERM'']\<rparr>"
    by (simp add: pgstrom_opencl_sigterm_def pgstrom_opencl_sighup_def clserv_log_def
          pgstrom_cancel_server_loop_def emit_def butlast_append)
  have d: "last (trace (pgstrom_opencl_sighup s)) = ClservLog ''Got SIGHUP''"
    by (simp add: pgstrom_opencl_sighup_def clserv_log_def)
  have e: "hd (flag_history (clserv_boot cfg) as) = False"
    using flag_history_hd [of "clserv_boot cfg" as] by (auto simp add: clserv_boot_def)
  from a b c d e flag_history_monotone [of s as] show ?thesis by (intro conjI) simp_all
qed

theorem signals_set_flag_once_witness:
  "flag_history (clserv_boot 2) [Deliver SIGHUP, Deliver SIGTERM] = [False, True, True]
   \<and> transitions (flag_history (clserv_boot 2) [Deliver SIGHUP, Deliver SIGTERM]) = 1
   \<and> sorted (flag_history (clserv_boot 2) [Deliver SIGHUP, Deliver SIGTERM])
   \<and> cancel_requests (trace (deliver SIGTERM (clserv_boot 2))) = 1"
proof -
  have h: "flag_history (clserv_boot 2) [Deliver SIGHUP, Deliver SIGTERM] = [False, True, True]"
    by (simp add: flag_history_def pgstrom_opencl_sigterm_def pgstrom_opencl_sighup_def
          clserv_log_def pgstrom_cancel_server_loop_def emit_def clserv_boot_def)
  have t: "transitions [False, True, True] = 1"
    by (simp add: transitions_def)
  have c0: "cancel_requests (trace (clserv_boot 2)) = 0"
    by (simp add: cancel_requests_def clserv_boot_def)
  note th = signals_set_flag_once [of SIGTERM "clserv_boot 2" "[Deliver SIGHUP, Deliver SIGTERM]" 2]
  from th have c: "cancel_requests (trace (deliver SIGTERM (clserv_boot 2))) =
      Suc (cancel_requests (trace (clserv_boot 2)))"
    by (elim conjE)
  from th have s: "sorted (flag_history (clserv_boot 2) [Deliver SIGHUP, Deliver SIGTERM])"
    by (elim conjE)
  from h t c c0 s show ?thesis by (simp only:) simp
qed

section \<open>The worker loop\<close>
lemma event_loop_acc:
  "pgstrom_opencl_event_loop ps tr = map_option (\<lambda>x. tr @ x) (spec_event_loop ps)"
proof (induction ps arbitrary: tr)
  case Nil
  show ?case by (simp add: spec_event_loop_def)
next
  case (Cons p ps)
  show ?case
  proof (cases p)
    case ExitPending
    then show ?thesis by (simp add: spec_event_loop_def)
  next
    case (Running msg)
    then show ?thesis
      by (cases msg) (auto simp add: Cons.IH spec_event_loop_def)
  qed
qed

lemma callbacks_spec_pass:
  "callbacks (concat (map spec_pass ps)) =
     map (\<lambda>m. (cb_process m, m)) (dequeued (concat (map spec_pass ps)))"
proof (induction ps)
  case Nil
  show ?case by (simp add: callbacks_def dequeued_def)
next
  case (Cons p ps)
  have app: "callbacks (xs @ ys) = callbacks xs @ callbacks ys"
    "dequeued (xs @ ys) = dequeued xs @ dequeued ys" for xs ys
    by (simp_all add: callbacks_def dequeued_def)
  have "callbacks (spec_pass p) = map (\<lambda>m. (cb_process m, m)) (dequeued (spec_pass p))"
    by (cases p rule: spec_pass.cases) (simp_all add: callbacks_def dequeued_def)
  with Cons.IH show ?case by (simp add: app)
qed

text \<open>
  Claim C1. The worker routine does what the specification's loop does: for every
  sequence of polls it returns exactly when some poll finds the shutdown flag set, and
  never before; until then each pass dequeues once and, when a message came back,
  invokes that message's own callback on it, once, before the next pass. So the
  callbacks invoked are those of the dequeued messages, in the same order.
\<close>
theorem event_loop_follows_spec:
  "pgstrom_opencl_event_loop ps [] = spec_event_loop ps
   \<and> ((\<exists>tr. pgstrom_opencl_event_loop ps [] = Some tr) \<longleftrightarrow> ExitPending \<in> set ps)
   \<and> (\<forall>tr. pgstrom_opencl_event_loop ps [] = Some tr \<longrightarrow>
          callbacks tr = map (\<lambda>m. (cb_process m, m)) (dequeued tr))"
proof -
  have eq: "pgstrom_opencl_event_loop ps [] = spec_event_loop ps"
    by (simp add: event_loop_acc option.map_ident)
  have ret: "(\<exists>tr. spec_event_loop ps = Some tr) \<longleftrightarrow> ExitPending \<in> set ps"
    by (simp add: spec_event_loop_def)
  have cb: "\<forall>tr. spec_event_loop ps = Some tr \<longrightarrow>
          callbacks tr = map (\<lambda>m. (cb_process m, m)) (dequeued tr)"
    by (auto simp add: spec_event_loop_def callbacks_spec_pass split: if_splits)
  from ret cb show ?thesis unfolding eq by simp
qed

theorem event_loop_follows_spec_witness:
  "ExitPending \<in> set demo_polls
   \<and> pgstrom_opencl_event_loop demo_polls [] =
       Some [CheckForInterrupts, Dequeue None, CheckForInterrupts,
             Dequeue (Some \<lparr>msg_id = 1, cb_process = 7\<rparr>),
             Callback 7 \<lparr>msg_id = 1, cb_process = 7\<rparr>]
   \<and> callbacks [CheckForInterrupts, Dequeue None, CheckForInterrupts,
             Dequeue (Some \<lparr>msg_id = 1, cb_process = 7\<rparr>),
             Callback 7 \<lparr>msg_id = 1, cb_process = 7\<rparr>] =
       [(7, \<lparr>msg_id = 1, cb_process = 7\<rparr>)]"
proof -
  have a: "ExitPending \<in> set demo_polls"
    by (simp add: demo_polls_def)
  have b: "pgstrom_opencl_event_loop demo_polls [] =
       Some [CheckForInterrupts, Dequeue None, CheckForInterrupts,
             Dequeue (Some \<lparr>msg_id = 1, cb_process = 7\<rparr>),
             Callback 7 \<lparr>msg_id = 1, cb_process = 7\<rparr>]"
    by (simp add: demo_polls_def)
  have d: "dequeued [CheckForInterrupts, Dequeue None, CheckForInterrupts,
             Dequeue (Some \<lparr>msg_id = 1, cb_process = 7\<rparr>),
             Callback 7 \<lparr>msg_id = 1, cb_process = 7\<rparr>] = [\<lparr>msg_id = 1, cb_process = 7\<rparr>]"
    by (simp add: dequeued_def)
  from event_loop_follows_spec [of demo_polls] b
  have "callbacks [CheckForInterrupts, Dequeue None, CheckForInterrupts,
             Dequeue (Some \<lparr>msg_id = 1, cb_process = 7\<rparr>),
             Callback 7 \<lparr>msg_id = 1, cb_process = 7\<rparr>] =
       map (\<lambda>m. (cb_process m, m)) (dequeued [CheckForInterrupts, Dequeue None, CheckForInterrupts,
             Dequeue (Some \<lparr>msg_id = 1, cb_process = 7\<rparr>),
             Callback 7 \<lparr>msg_id = 1, cb_process = 7\<rparr>])"
    by simp
  with a b d show ?thesis by simp
qed

section \<open>The device scheduler\<close>
lemma index_after_calls:
  "((\<lambda>i. snd (pgstrom_opencl_device_schedule u C i)) ^^ n) i0 = i0 + word_of_nat n"
  by (induction n) (simp_all add: pgstrom_opencl_device_schedule_def)

lemma nth_schedule_eq:
  "nth_schedule u C n = fst (pgstrom_opencl_device_schedule u C (word_of_nat n))"
  by (simp add: nth_schedule_def index_after_calls)

lemma sint_small: "n < 2 ^ 31 \<Longrightarrow> sint (word_of_nat n :: 32 word) = int n"
proof -
  assume n: "n < 2 ^ 31"
  have "sint (word_of_nat n :: 32 word) = sint (word_of_int (int n) :: 32 word)"
    by simp
  also have "\<dots> = signed_take_bit 31 (int n)"
    by (simp only: sint_sbintrunc') simp
  also have "\<dots> = int n"
    using n by (intro signed_take_bit_int_eq_self) simp_all
  finally show ?thesis .
qed

lemma c_rem_nonneg: "0 \<le> a \<Longrightarrow> 0 < b \<Longrightarrow> c_rem a b = a mod b"
  by (simp add: c_rem_def zsgn_def)

text \<open>
  Below the wrap-around the scheduler is the round robin of the specification, for both
  declarations of the device count.
\<close>
lemma schedule_round_robin_signed:
  assumes "0 < sint C" and "n < 2 ^ 31"
  shows "nth_schedule False C n = Some (int n mod sint C)"
proof -
  from assms(1) have "C \<noteq> 0" by auto
  with assms show ?thesis
    by (simp add: nth_schedule_eq pgstrom_opencl_device_schedule_def sint_small c_rem_nonneg)
qed

lemma schedule_round_robin_unsigned:
  assumes "0 < unat C" and "unat C \<le> 2 ^ 31" and "n < 2 ^ 31"
  shows "nth_schedule True C n = Some (int (n mod unat C))"
proof -
  from assms(1) have nz: "C \<noteq> 0" by auto
  have u: "unat (word_of_nat n :: 32 word) = n"
    using assms(3) by (simp add: unat_of_nat)
  have "n mod unat C < 2 ^ 31"
    using assms(3) by (meson le_less_trans mod_less_eq_dividend)
  then have "sint (word_of_nat (n mod unat C) :: 32 word) = int (n mod unat C)"
    by (rule sint_small)
  with nz u show ?thesis
    by (simp add: nth_schedule_eq pgstrom_opencl_device_schedule_def)
qed

text \<open>
  Claim C2. With three devices, if the device count is a signed \<open>int\<close> the call
  number \<open>2^31\<close> (counted from 0) finds the counter at \<open>INT_MIN\<close> and returns -2,
  which is no device index; the round robin asks for 2. Whatever the declaration of
  the count, the call number \<open>2^32\<close> finds the counter back at 0 and returns 0, just
  after the call number \<open>2^32 - 1\<close> returned 0 (unsigned count) or -1 (signed count);
  the round robin asks for 1 after 0.
\<close>
theorem schedule_breaks_at_wrap:
  "nth_schedule False 3 (2 ^ 31) = Some (- 2)
   \<and> nth_schedule False 3 (2 ^ 31 - 1) = Some 1
   \<and> nth_schedule True 3 (2 ^ 32 - 1) = Some 0
   \<and> nth_schedule False 3 (2 ^ 32 - 1) = Some (- 1)
   \<and> nth_schedule u 3 (2 ^ 32) = Some 0
   \<and> (2 ^ 31 :: nat) mod 3 = 2 \<and> (2 ^ 32 :: nat) mod 3 = 1"
  by (simp add: nth_schedule_eq pgstrom_opencl_device_schedule_def c_rem_def)

section \<open>The log writer\<close>
lemmas log_simps =
  clserv_log_function_def clserv_log_compose_def log_head_def snprintf_def show_int_def
  digits.simps sizeof_buf_def size_t_sub_def size_t_add_def size_t_of_int_def Let_def

text \<open>
  When the output goes through the pipe protocol, every frame carries at most
  \<open>PIPE_MAX_PAYLOAD\<close> bytes, its length field is the length of its payload, and the
  payloads together are the message.
\<close>
lemma write_pipe_chunks_bounded:
  "write_pipe_chunks P data = Some ws \<Longrightarrow>
     list_all (\<lambda>w. payload_length w \<le> P \<and> payload_length w = length (payload w)) ws
     \<and> concat (map payload ws) = data"
proof (induction P data arbitrary: ws rule: write_pipe_chunks.induct)
  case (1 P data)
  show ?case
  proof (cases "P < length data")
    case False
    with "1.prems" show ?thesis
      by (auto simp add: write_pipe_chunks.simps [of P data] payload_length_def payload_def)
  next
    case True
    with "1.prems" have nz: "P \<noteq> 0"
      by (auto simp add: write_pipe_chunks.simps [of P data] split: if_splits)
    with True "1.prems" obtain ws' where
      rest: "write_pipe_chunks P (drop P data) = Some ws'"
      and ws: "ws = Frame CHR ''f'' P (take P data) # ws'"
      by (auto simp add: write_pipe_chunks.simps [of P data] split: if_splits)
    from "1.IH" [OF True nz rest] True show ?thesis
      by (simp add: ws payload_length_def payload_def)
  qed
qed

lemma write_pipe_chunks_returns:
  "0 < P \<Longrightarrow> \<exists>ws. write_pipe_chunks P data = Some ws"
proof (induction P data rule: write_pipe_chunks.induct)
  case (1 P data)
  show ?case
  proof (cases "P < length data")
    case False
    then show ?thesis by (simp add: write_pipe_chunks.simps [of P data])
  next
    case True
    from "1.prems" have nz: "P \<noteq> 0" by simp
    from "1.IH" [OF True nz "1.prems"] True nz show ?thesis
      by (auto simp add: write_pipe_chunks.simps [of P data])
  qed
qed

text \<open>
  Claim C9. A message whose head and body together exceed the array is not cut to fit:
  \<open>snprintf\<close> returns the length the text would have had, so \<open>ofs\<close> passes the
  end of the array, \<open>sizeof(buf) - ofs\<close> wraps around to a huge size, and the last
  \<open>snprintf\<close> stores the line feed and the \<open>NUL\<close> beyond the array. With the head
  \<open>LOG: (opencl_serv.c:51) \<close> of 24 bytes, a body of 8168 bytes is the longest that is
  safe; one of 8169 bytes stores 2 bytes at offset 8193, one of 9000 bytes at offset
  9024.
\<close>
theorem log_message_overruns_buffer:
  "clserv_log_function False True True 503 ''pgstrom_opencl_sigterm'' ''opencl_serv.c'' 51
      (replicate 9000 CHR ''x'') (replicate 8192 c) = Inl (BufferOverrun 9024 2)
   \<and> clserv_log_function False True True 503 ''pgstrom_opencl_sigterm'' ''opencl_serv.c'' 51
      (replicate 8169 CHR ''x'') (replicate 8192 c) = Inl (BufferOverrun 8193 2)
   \<and> clserv_log_compose False ''pgstrom_opencl_sigterm'' ''opencl_serv.c'' 51
      (replicate 8168 CHR ''x'') (replicate 8192 c) =
        Inr (''LOG: (opencl_serv.c:51) '' @ replicate 8167 CHR ''x'' @ [NUL])"
  by (simp add: log_simps)

lemma snprintf_Inr:
  assumes "n = 0 \<or> ofs + min (n - 1) (length s) + 1 \<le> length buf" and "length s < 2 ^ 31"
  shows "\<exists>buf'. snprintf buf ofs n s = Inr (buf', int (length s)) \<and> length buf' = length buf"
proof (cases "n = 0")
  case True
  with assms(2) show ?thesis by (simp add: snprintf_def)
next
  case False
  with assms(1) have fit: "ofs + min (n - 1) (length s) + 1 \<le> length buf" by simp
  have len: "length (take (n - 1) s @ [NUL]) = min (n - 1) (length s) + 1"
    by (simp add: min.commute)
  from fit have "\<not> length buf < ofs + length (take (n - 1) s @ [NUL])"
    unfolding len by simp
  moreover from fit have "ofs \<le> length buf" by simp
  ultimately show ?thesis
    using False assms(2) fit
    by (simp add: snprintf_def Let_def min.commute del: length_append length_take)
       (simp add: min.commute)
qed

lemma snprintf_Inl:
  assumes "n \<noteq> 0" and "length buf < ofs + min (n - 1) (length s) + 1"
  shows "snprintf buf ofs n s = Inl (BufferOverrun ofs (min (n - 1) (length s) + 1))"
  using assms by (simp add: snprintf_def Let_def min.commute)

lemma size_t_of_length: "n < 2 ^ 31 \<Longrightarrow> size_t_of_int (int n) = n"
proof -
  assume "n < 2 ^ 31"
  moreover have "(2 :: nat) ^ 31 < 2 ^ 64" by simp
  ultimately have "n < 2 ^ 64" by (rule less_trans)
  then show ?thesis by (simp add: size_t_of_int_def)
qed

lemma wrap_sub_le: "b \<le> a \<Longrightarrow> a < M \<Longrightarrow> (a + M - b) mod M = a - (b :: nat)"
proof -
  assume le: "b \<le> a" and a: "a < M"
  from le have e: "a + M - b = (a - b) + M" by (rule Nat.diff_add_assoc2)
  from a have l: "a - b < M" by (rule less_imp_diff_less)
  show ?thesis unfolding e using l by (simp only: mod_add_self2 mod_less)
qed

lemma wrap_sub_gt: "a < b \<Longrightarrow> b < M \<Longrightarrow> (a + M - b) mod M \<noteq> (0 :: nat)"
proof -
  assume lt: "a < b" and b: "b < M"
  then have "a + M - b < M" "0 < a + M - b" by arith+
  then show ?thesis by simp
qed

lemma size_t_sub_le: "b \<le> a \<Longrightarrow> a < 2 ^ 64 \<Longrightarrow> size_t_sub a b = a - b"
  unfolding size_t_sub_def by (rule wrap_sub_le)

lemma size_t_sub_gt: "a < b \<Longrightarrow> b < 2 ^ 64 \<Longrightarrow> size_t_sub a b \<noteq> 0"
  unfolding size_t_sub_def by (rule wrap_sub_gt)

lemma size_t_add_small: "a + b < 2 ^ 64 \<Longrightarrow> size_t_add a b = a + b"
  by (simp add: size_t_add_def)

lemma below_size_t: "n < 2 ^ 31 \<Longrightarrow> m < 2 ^ 31 \<Longrightarrow> n + m < (2 :: nat) ^ 64"
proof -
  assume "n < 2 ^ 31" "m < 2 ^ 31"
  then have "n + m < 2 ^ 31 + 2 ^ 31" by (rule add_strict_mono)
  also have "\<dots> < (2 :: nat) ^ 64" by simp
  finally show ?thesis .
qed

text \<open>
  The three stores stay inside the array exactly when head and body together are at
  most \<open>sizeof(buf)\<close> bytes long (the message is then cut only if they are exactly
  that long or one byte shorter).
\<close>
lemma compose_overrun_iff:
  assumes len: "length buf = sizeof_buf"
    and h: "length (log_head verbose funcname filename lineno) < 2 ^ 31"
    and b: "length body < 2 ^ 31"
  shows "isl (clserv_log_compose verbose funcname filename lineno body buf) \<longleftrightarrow>
           sizeof_buf < length (log_head verbose funcname filename lineno) + length body"
proof -
  define hs where "hs = log_head verbose funcname filename lineno"
  define hl where "hl = length hs"
  define bl where "bl = length body"
  have hl: "hl < 2 ^ 31" using h by (simp add: hl_def hs_def)
  have bl: "bl < 2 ^ 31" using b by (simp add: bl_def)
  have hb: "hl + bl < 2 ^ 64" using hl bl by (rule below_size_t)
  have h64: "hl < 2 ^ 64" using hb by simp
  have n1: "size_t_sub sizeof_buf 0 = sizeof_buf"
    by (simp add: size_t_sub_le sizeof_buf_def)
  have "sizeof_buf = 0 \<or> 0 + min (sizeof_buf - 1) (length hs) + 1 \<le> length buf"
    by (simp add: len sizeof_buf_def)
  from snprintf_Inr [OF this] hl obtain buf1 where
    s1: "snprintf buf 0 sizeof_buf hs = Inr (buf1, int hl)" and l1: "length buf1 = sizeof_buf"
    by (auto simp add: hl_def len)
  have o1: "size_t_add 0 (size_t_of_int (int hl)) = hl"
    using hl h64 by (simp add: size_t_of_length size_t_add_small)
  show ?thesis
  proof (cases "hl \<le> sizeof_buf")
    case False
    then have "size_t_sub sizeof_buf hl \<noteq> 0"
      using h64 by (simp add: size_t_sub_gt)
    moreover have "length buf1 < hl + min (size_t_sub sizeof_buf hl - 1) (length body) + 1"
      using False l1 by simp
    ultimately have "snprintf buf1 hl (size_t_sub sizeof_buf hl) body =
        Inl (BufferOverrun hl (min (size_t_sub sizeof_buf hl - 1) (length body) + 1))"
      by (rule snprintf_Inl)
    then have "isl (clserv_log_compose verbose funcname filename lineno body buf)"
      by (simp add: clserv_log_compose_def Let_def n1 hs_def [symmetric] s1 o1)
    with False show ?thesis by (simp add: hs_def [symmetric] hl_def [symmetric])
  next
    case True
    have n2: "size_t_sub sizeof_buf hl = sizeof_buf - hl"
      using True by (simp add: size_t_sub_le sizeof_buf_def)
    have "sizeof_buf - hl = 0 \<or> hl + min (sizeof_buf - hl - 1) (length body) + 1 \<le> length buf1"
      using True l1 by (cases "hl = sizeof_buf") simp_all
    from snprintf_Inr [OF this] bl obtain buf2 where
      s2: "snprintf buf1 hl (sizeof_buf - hl) body = Inr (buf2, int bl)"
      and l2: "length buf2 = sizeof_buf"
      by (auto simp add: bl_def l1)
    have o2: "size_t_add hl (size_t_of_int (int bl)) = hl + bl"
      using bl hb by (simp add: size_t_of_length size_t_add_small)
    show ?thesis
    proof (cases "hl + bl \<le> sizeof_buf")
      case fits: True
      have n3: "size_t_sub sizeof_buf (hl + bl) = sizeof_buf - (hl + bl)"
        using fits by (simp add: size_t_sub_le sizeof_buf_def)
      have "sizeof_buf - (hl + bl) = 0 \<or>
          hl + bl + min (sizeof_buf - (hl + bl) - 1) (length [CHR 0x0A]) + 1 \<le> length buf2"
        using fits l2 by (cases "hl + bl = sizeof_buf") simp_all
      from snprintf_Inr [OF this] obtain buf3 where
        "snprintf buf2 (hl + bl) (sizeof_buf - (hl + bl)) [CHR 0x0A] = Inr (buf3, int (length [CHR 0x0A]))"
        by auto
      then have "\<not> isl (clserv_log_compose verbose funcname filename lineno body buf)"
        by (simp add: clserv_log_compose_def Let_def n1 hs_def [symmetric] s1 o1 n2 s2 o2 n3)
      with fits show ?thesis
        by (simp add: hs_def [symmetric] hl_def [symmetric] bl_def [symmetric])
    next
      case over: False
      then have "size_t_sub sizeof_buf (hl + bl) \<noteq> 0"
        using hb by (simp add: size_t_sub_gt)
      moreover have "length buf2 <
          hl + bl + min (size_t_sub sizeof_buf (hl + bl) - 1) (length [CHR 0x0A]) + 1"
        using over l2 by simp
      ultimately have "snprintf buf2 (hl + bl) (size_t_sub sizeof_buf (hl + bl)) [CHR 0x0A] =
          Inl (BufferOverrun (hl + bl)
                 (min (size_t_sub sizeof_buf (hl + bl) - 1) (length [CHR 0x0A]) + 1))"
        by (rule snprintf_Inl)
      then have "isl (clserv_log_compose verbose funcname filename lineno body buf)"
        by (simp add: clserv_log_compose_def Let_def n1 hs_def [symmetric] s1 o1 n2 s2 o2)
      with over show ?thesis
        by (simp add: hs_def [symmetric] hl_def [symmetric] bl_def [symmetric])
    qed
  qed
qed

end
